theory Spec2Isabelle
  imports Main
begin

section \<open>The template loader of \<^verbatim>\<open>builder/build.go\<close>\<close>

text \<open>
  The loader merges named CUE fragments (a context fragment, a parameter fragment and the
  template body) and hands them to the CUE engine. The engine (\<^verbatim>\<open>cue\<close>,
  \<^verbatim>\<open>cue/build\<close>, \<^verbatim>\<open>cue/parser\<close>) and \<^verbatim>\<open>encoding/json\<close> are external
  libraries: the model takes their entry points as the fields of a record, with the
  types of files, engine errors, build instances and evaluated instances left open.
\<close>

subsection \<open>Errors\<close>

text \<open>
  \<^verbatim>\<open>errors.Errorf(msg)\<close> makes a fresh error carrying the formatted message;
  \<^verbatim>\<open>errors.WithMessagef(err, msg)\<close> wraps an engine error with a message.
\<close>

datatype 'e loader_error = Errorf string | WithMessagef 'e string

text \<open>
  The text of an error, as its \<^verbatim>\<open>Error()\<close> method gives it: the message of
  \<^verbatim>\<open>errors.Errorf\<close>, and for \<^verbatim>\<open>errors.WithMessagef\<close> the message, a colon, a blank and
  the text of the wrapped error. \<open>txt\<close> gives the text of an engine error.
\<close>

fun message :: "('e \<Rightarrow> string) \<Rightarrow> 'e loader_error \<Rightarrow> string" where
  "message txt (Errorf m) = m"
| "message txt (WithMessagef e m) = m @ '': '' @ txt e"

subsection \<open>The external engine\<close>

text \<open>
  \<^item> \<open>json_Marshal v\<close> is \<^verbatim>\<open>json.Marshal(v)\<close>: \<open>None\<close> when it returns an error
    (the byte slice is then nil), \<open>Some body\<close> otherwise.
  \<^item> \<open>cue_ParseFile name src\<close> is \<^verbatim>\<open>cueparser.ParseFile(name, src)\<close>: the pair of the
    file and the error (\<open>None\<close> for nil).
  \<^item> \<open>build_NewInstance\<close> is \<^verbatim>\<open>build.NewContext().NewInstance("", nil)\<close>.
  \<^item> \<open>cue_AddSyntax bi f\<close> is \<^verbatim>\<open>bi.AddSyntax(f)\<close>: the error, or the instance with
    the file added.
  \<^item> \<open>cue_Build\<close> is \<^verbatim>\<open>cue.Build\<close>.
  \<^item> \<open>cue_Validate inst\<close> is \<^verbatim>\<open>inst.Value().Validate(cue.Concrete(true))\<close>.
\<close>

record ('v, 'f, 'e, 'bi, 'inst) engine =
  json_Marshal :: "'v \<Rightarrow> string option"
  cue_ParseFile :: "string \<Rightarrow> string \<Rightarrow> 'f \<times> 'e option"
  build_NewInstance :: "'bi"
  cue_AddSyntax :: "'bi \<Rightarrow> 'f \<Rightarrow> 'e + 'bi"
  cue_Build :: "'bi list \<Rightarrow> 'inst list"
  cue_Validate :: "'inst \<Rightarrow> 'e option"

subsection \<open>The loader\<close>

text \<open>\<^verbatim>\<open>type loader struct { files map[string]*ast.File; err error }\<close>\<close>

record ('f, 'e) loader =
  files :: "string \<rightharpoonup> 'f"
  err :: "'e loader_error option"

text \<open>
  \<^verbatim>\<open>marshal\<close> drops the error of \<^verbatim>\<open>json.Marshal\<close>; \<^verbatim>\<open>string(nil)\<close> is the empty
  string.
\<close>

definition marshal :: "('v, 'f, 'e, 'bi, 'inst) engine \<Rightarrow> string \<Rightarrow> 'v \<Rightarrow> string" where
  "marshal E key v =
     (let body = (case json_Marshal E v of None \<Rightarrow> [] | Some b \<Rightarrow> b)
      in key @ '': '' @ body)"

text \<open>
  The three calls that parse a value fragment share their body (lines 160-166, 187-193
  and 201-207 of the source): parse the marshalled value under the key, latch the error
  if there is one, store the file under the key in any case.
\<close>

definition newLoader :: "('v, 'f, 'e, 'bi, 'inst) engine \<Rightarrow> 'v \<Rightarrow> ('f, 'e) loader" where
  "newLoader E ctx =
     (let l = \<lparr>files = Map.empty, err = None\<rparr>;
          key = ''context'';
          (f, perr) = cue_ParseFile E key (marshal E key ctx);
          l = (if perr \<noteq> None
               then l\<lparr>err := Some (Errorf (''loader parse '' @ key @ '' error''))\<rparr>
               else l)
      in l\<lparr>files := (files l)(key \<mapsto> f)\<rparr>)"

definition WithTemplate ::
  "('v, 'f, 'e, 'bi, 'inst) engine \<Rightarrow> string \<Rightarrow> ('f, 'e) loader \<Rightarrow> ('f, 'e) loader" where
  "WithTemplate E raw l =
     (if err l \<noteq> None then l
      else
        let (f, perr) = cue_ParseFile E ''-'' raw;
            l = (if perr \<noteq> None
                 then l\<lparr>err := Some (Errorf ''loader parse template error'')\<rparr>
                 else l)
        in l\<lparr>files := (files l)(''-'' \<mapsto> f)\<rparr>)"

definition WithContext ::
  "('v, 'f, 'e, 'bi, 'inst) engine \<Rightarrow> 'v \<Rightarrow> ('f, 'e) loader \<Rightarrow> ('f, 'e) loader" where
  "WithContext E ctx l =
     (if err l \<noteq> None then l
      else
        let key = ''context'';
            (f, perr) = cue_ParseFile E key (marshal E key ctx);
            l = (if perr \<noteq> None
                 then l\<lparr>err := Some (Errorf (''loader parse '' @ key @ '' error''))\<rparr>
                 else l)
        in l\<lparr>files := (files l)(key \<mapsto> f)\<rparr>)"

definition WithParams ::
  "('v, 'f, 'e, 'bi, 'inst) engine \<Rightarrow> 'v \<Rightarrow> ('f, 'e) loader \<Rightarrow> ('f, 'e) loader" where
  "WithParams E params l =
     (if err l \<noteq> None then l
      else
        let key = ''parameter'';
            (f, perr) = cue_ParseFile E key (marshal E key params);
            l = (if perr \<noteq> None
                 then l\<lparr>err := Some (Errorf (''loader parse '' @ key @ '' error''))\<rparr>
                 else l)
        in l\<lparr>files := (files l)(key \<mapsto> f)\<rparr>)"

text \<open>
  \<^verbatim>\<open>loader.Complete\<close>. The first loop ranges over the Go map \<^verbatim>\<open>l.files\<close>, whose
  iteration order the language leaves open: the model takes the order of the keys as
  the argument \<open>ord\<close>. An order the runtime can choose lists every key of the map once
  (\<open>iteration_order\<close>); a key outside the map is not visited.
\<close>

definition iteration_order :: "('f, 'e) loader \<Rightarrow> string list \<Rightarrow> bool" where
  "iteration_order l ord \<longleftrightarrow> distinct ord \<and> set ord = dom (files l)"

fun addFiles ::
  "('v, 'f, 'e, 'bi, 'inst) engine \<Rightarrow> (string \<rightharpoonup> 'f) \<Rightarrow> string list \<Rightarrow> 'bi
     \<Rightarrow> 'e loader_error + 'bi" where
  "addFiles E fs [] bi = Inr bi"
| "addFiles E fs (fname # rest) bi =
     (case fs fname of
        None \<Rightarrow> addFiles E fs rest bi
      | Some f \<Rightarrow>
          (case cue_AddSyntax E bi f of
             Inl e \<Rightarrow> Inl (WithMessagef e (''loader AddSyntax '' @ fname))
           | Inr bi' \<Rightarrow> addFiles E fs rest bi'))"

text \<open>The second loop: validate every instance, keep the last one (\<open>None\<close> is nil).\<close>

fun validateAll ::
  "('v, 'f, 'e, 'bi, 'inst) engine \<Rightarrow> 'inst list \<Rightarrow> 'inst option
     \<Rightarrow> 'e loader_error + 'inst option" where
  "validateAll E [] ret = Inr ret"
| "validateAll E (inst # insts) ret =
     (case cue_Validate E inst of
        Some e \<Rightarrow> Inl (WithMessagef e ''loader cue-instance validate'')
      | None \<Rightarrow> validateAll E insts (Some inst))"

definition loader_Complete ::
  "('v, 'f, 'e, 'bi, 'inst) engine \<Rightarrow> string list \<Rightarrow> ('f, 'e) loader
     \<Rightarrow> 'e loader_error + 'inst option" where
  "loader_Complete E ord l =
     (case err l of
        Some e \<Rightarrow> Inl e
      | None \<Rightarrow>
          (case addFiles E (files l) ord (build_NewInstance E) of
             Inl e \<Rightarrow> Inl e
           | Inr bi \<Rightarrow> validateAll E (cue_Build E [bi]) None))"

text \<open>
  A caller drives a loader through the \<^verbatim>\<open>parser.Render\<close> interface: a sequence of
  \<^verbatim>\<open>WithTemplate\<close>, \<^verbatim>\<open>WithContext\<close> and \<^verbatim>\<open>WithParams\<close> calls.
\<close>

datatype 'v render_call = CallTemplate string | CallContext 'v | CallParams 'v

fun apply_call ::
  "('v, 'f, 'e, 'bi, 'inst) engine \<Rightarrow> 'v render_call \<Rightarrow> ('f, 'e) loader \<Rightarrow> ('f, 'e) loader" where
  "apply_call E (CallTemplate raw) l = WithTemplate E raw l"
| "apply_call E (CallContext ctx) l = WithContext E ctx l"
| "apply_call E (CallParams params) l = WithParams E params l"

fun apply_calls ::
  "('v, 'f, 'e, 'bi, 'inst) engine \<Rightarrow> 'v render_call list \<Rightarrow> ('f, 'e) loader \<Rightarrow> ('f, 'e) loader" where
  "apply_calls E [] l = l"
| "apply_calls E (c # cs) l = apply_calls E cs (apply_call E c l)"

section \<open>The builder of \<^verbatim>\<open>builder/build.go\<close>\<close>

subsection \<open>The resources\<close>

text \<open>
  The resource types come from \<^verbatim>\<open>apis/core.oam.dev/v1alpha2\<close> and the Kubernetes API
  machinery. The model keeps the fields the builder reads or writes: the group, version
  and kind of \<^verbatim>\<open>TypeMeta\<close> (one of the two constants the builder sets), and the name,
  namespace and labels of \<^verbatim>\<open>ObjectMeta\<close>, where \<open>None\<close> is the nil map. A
  \<^verbatim>\<open>runtime.RawExtension\<close> has its raw bytes and its object (\<open>None\<close> for nil).
\<close>

datatype GroupVersionKind = ApplicationConfigurationGroupVersionKind | ComponentGroupVersionKind

record 'o RawExtension =
  Raw :: string
  Object :: "'o option"

record Meta =
  TypeMeta :: "GroupVersionKind option"
  Name :: string
  Namespace :: string
  Labels :: "(string \<rightharpoonup> string) option"

record 'o Component = Meta +
  Spec_Workload :: "'o RawExtension"

record 'o ComponentTrait =
  Trait :: "'o RawExtension"

record 'o ApplicationConfigurationComponent =
  ComponentName :: string
  Traits :: "'o ComponentTrait list"

record 'o ApplicationConfiguration = Meta +
  Spec_Components :: "'o ApplicationConfigurationComponent list"

definition OamApplicationLabel :: string where
  "OamApplicationLabel = ''application.oam.dev''"

text \<open>The zero values \<^verbatim>\<open>&v1alpha2.Component{}\<close> and \<^verbatim>\<open>&v1alpha2.ApplicationConfiguration{}\<close>.\<close>

definition zero_Component :: "'o Component" where
  "zero_Component =
     \<lparr>TypeMeta = None, Name = [], Namespace = [], Labels = None,
      Spec_Workload = \<lparr>Raw = [], Object = None\<rparr>\<rparr>"

definition zero_ApplicationConfiguration :: "'o ApplicationConfiguration" where
  "zero_ApplicationConfiguration =
     \<lparr>TypeMeta = None, Name = [], Namespace = [], Labels = None, Spec_Components = []\<rparr>"

subsection \<open>The application descriptor and the collaborators\<close>

text \<open>
  \<^verbatim>\<open>parser.Appfile\<close>, \<^verbatim>\<open>parser.Workload\<close> and \<^verbatim>\<open>parser.Trait\<close> are declared in
  package \<^verbatim>\<open>parser\<close>. The builder reads an application's name and services, and a
  workload's name and traits; what else a workload holds is \<open>'w\<close>, and a trait is \<open>'t\<close>.
\<close>

record ('w, 't) Workload =
  wl_Name :: string
  wl_Traits :: "'t list"
  wl_Def :: 'w

record ('w, 't) Appfile =
  app_Name :: string
  app_Services :: "('w, 't) Workload list"

text \<open>\<^verbatim>\<open>type builder struct { app *parser.Appfile }\<close>\<close>

record ('w, 't) builder =
  builder_app :: "('w, 't) Appfile"

text \<open>
  The evaluation context of package \<^verbatim>\<open>process\<close> and the calls that write into it:
  \<^item> \<open>NewContext name\<close> is \<^verbatim>\<open>process.NewContext(name)\<close>;
  \<^item> \<open>wl_EvalContext wl pCtx\<close> is \<^verbatim>\<open>wl.EvalContext(pCtx)\<close> and \<open>tr_EvalContext tr pCtx\<close> is
    \<^verbatim>\<open>tr.EvalContext(pCtx)\<close>: the error, or the context as the call leaves it;
  \<^item> \<open>ctx_Output pCtx\<close> is \<^verbatim>\<open>pCtx.Output()\<close>: the base and the assists;
  \<^item> \<open>inst_Object x\<close> is \<^verbatim>\<open>x.Object(nil)\<close> on a base or an assist.
\<close>

record ('w, 't, 'ctx, 'b, 'o, 'err) process =
  NewContext :: "string \<Rightarrow> 'ctx"
  wl_EvalContext :: "('w, 't) Workload \<Rightarrow> 'ctx \<Rightarrow> 'err + 'ctx"
  tr_EvalContext :: "'t \<Rightarrow> 'ctx \<Rightarrow> 'err + 'ctx"
  ctx_Output :: "'ctx \<Rightarrow> 'b \<times> 'b list"
  inst_Object :: "'b \<Rightarrow> 'err + 'o"

text \<open>
  The stateless evaluation: \<open>wl_Eval wl render\<close> is \<^verbatim>\<open>wl.Eval(render)\<close> and
  \<open>tr_Eval trait render\<close> is \<^verbatim>\<open>trait.Eval(render)\<close>, each given a fresh loader.
\<close>

record ('w, 't, 'f, 'e, 'o, 'err) stateless =
  wl_Eval :: "('w, 't) Workload \<Rightarrow> ('f, 'e) loader \<Rightarrow> 'err + 'o Component"
  tr_Eval :: "'t \<Rightarrow> ('f, 'e) loader \<Rightarrow> 'err + 'o ComponentTrait list"

text \<open>
  A value passed as \<^verbatim>\<open>interface{}\<close> to the loader: the \<^verbatim>\<open>map[string]string\<close> the
  builder makes, or any other value.
\<close>

datatype 'x iface = MapStringString "string \<rightharpoonup> string" | Iface 'x

subsection \<open>\<^verbatim>\<open>generateOAM\<close>\<close>

text \<open>The loop over the assists (lines 137-147), with the traits collected so far.\<close>

fun assistTraits ::
  "('w, 't, 'ctx, 'b, 'o, 'err) process \<Rightarrow> 'b list \<Rightarrow> 'o ComponentTrait list
     \<Rightarrow> 'err + 'o ComponentTrait list" where
  "assistTraits P [] traits = Inr traits"
| "assistTraits P (assist # assists) traits =
     (case inst_Object P assist of
        Inl e \<Rightarrow> Inl e
      | Inr traitRef \<Rightarrow>
          assistTraits P assists (traits @ [\<lparr>Trait = \<lparr>Raw = [], Object = Some traitRef\<rparr>\<rparr>]))"

definition generateOAM ::
  "('w, 't, 'ctx, 'b, 'o, 'err) process \<Rightarrow> 'ctx
     \<Rightarrow> 'err + ('o Component \<times> 'o ApplicationConfigurationComponent)" where
  "generateOAM P pCtx =
     (let (base, assists) = ctx_Output P pCtx
      in case inst_Object P base of
           Inl e \<Rightarrow> Inl e
         | Inr componetWorkload \<Rightarrow>
             (let component = zero_Component;
                  component = component\<lparr>Spec_Workload :=
                     (Spec_Workload component)\<lparr>Object := Some componetWorkload\<rparr>\<rparr>;
                  acComponent = \<lparr>ComponentName = [], Traits = []\<rparr>
              in case assistTraits P assists (Traits acComponent) of
                   Inl e \<Rightarrow> Inl e
                 | Inr traits \<Rightarrow> Inr (component, acComponent\<lparr>Traits := traits\<rparr>)))"

subsection \<open>\<^verbatim>\<open>CompleteWithContext\<close> and \<^verbatim>\<open>Build\<close>\<close>

text \<open>The loop over a workload's traits (lines 100-104).\<close>

fun evalTraits ::
  "('w, 't, 'ctx, 'b, 'o, 'err) process \<Rightarrow> 't list \<Rightarrow> 'ctx \<Rightarrow> 'err + 'ctx" where
  "evalTraits P [] pCtx = Inr pCtx"
| "evalTraits P (tr # trs) pCtx =
     (case tr_EvalContext P tr pCtx of
        Inl e \<Rightarrow> Inl e
      | Inr pCtx' \<Rightarrow> evalTraits P trs pCtx')"

text \<open>
  The three results of the Go functions are kept as a triple: the configuration, the
  components and the error, each \<open>None\<close> for nil. The loop over the services
  (lines 95-121) carries \<^verbatim>\<open>appconfig\<close> and \<^verbatim>\<open>componets\<close>. The source's variable
  \<^verbatim>\<open>comp\<close> is written \<open>cmp\<close> here (and \<open>acc\<close> in the stateless strategy, where it is
  the binding record), since \<open>comp\<close> is function composition in HOL.
\<close>

type_synonym ('o, 'err) built =
  "'o ApplicationConfiguration option \<times> 'o Component list option \<times> 'err option"

fun servicesWithContext ::
  "('w, 't, 'ctx, 'b, 'o, 'err) process \<Rightarrow> ('w, 't) builder \<Rightarrow> string
     \<Rightarrow> ('w, 't) Workload list \<Rightarrow> 'o ApplicationConfiguration \<Rightarrow> 'o Component list
     \<Rightarrow> ('o, 'err) built" where
  "servicesWithContext P b ns [] appconfig componets = (Some appconfig, Some componets, None)"
| "servicesWithContext P b ns (wl # wls) appconfig componets =
     (let pCtx = NewContext P (wl_Name wl)
      in case wl_EvalContext P wl pCtx of
           Inl e \<Rightarrow> (None, None, Some e)
         | Inr pCtx \<Rightarrow>
        (case evalTraits P (wl_Traits wl) pCtx of
           Inl e \<Rightarrow> (None, None, Some e)
         | Inr pCtx \<Rightarrow>
        (case generateOAM P pCtx of
           Inl e \<Rightarrow> (None, None, Some e)
         | Inr (cmp, acComp) \<Rightarrow>
             (let cmp = cmp\<lparr>Name := wl_Name wl\<rparr>;
                  acComp = acComp\<lparr>ComponentName := Name cmp\<rparr>;
                  cmp = cmp\<lparr>Namespace := ns\<rparr>;
                  cmp = (if Labels cmp = None then cmp\<lparr>Labels := Some Map.empty\<rparr> else cmp);
                  cmp = cmp\<lparr>Labels := map_option
                     (\<lambda>m. m(OamApplicationLabel \<mapsto> app_Name (builder_app b))) (Labels cmp)\<rparr>;
                  cmp = cmp\<lparr>TypeMeta := Some ComponentGroupVersionKind\<rparr>;
                  componets = componets @ [cmp];
                  appconfig = appconfig\<lparr>Spec_Components := Spec_Components appconfig @ [acComp]\<rparr>
              in servicesWithContext P b ns wls appconfig componets))))"

text \<open>The configuration both strategies start from (lines 36-45 and 83-92).\<close>

definition new_appconfig :: "('w, 't) builder \<Rightarrow> string \<Rightarrow> 'o ApplicationConfiguration" where
  "new_appconfig b ns =
     (let appconfig = zero_ApplicationConfiguration;
          appconfig = appconfig\<lparr>TypeMeta := Some ApplicationConfigurationGroupVersionKind\<rparr>;
          appconfig = appconfig\<lparr>Name := app_Name (builder_app b)\<rparr>;
          appconfig = appconfig\<lparr>Namespace := ns\<rparr>;
          appconfig = appconfig\<lparr>Spec_Components := []\<rparr>;
          appconfig = (if Labels appconfig = None then appconfig\<lparr>Labels := Some Map.empty\<rparr>
                       else appconfig)
      in appconfig\<lparr>Labels := map_option
           (\<lambda>m. m(OamApplicationLabel \<mapsto> app_Name (builder_app b))) (Labels appconfig)\<rparr>)"

definition CompleteWithContext ::
  "('w, 't, 'ctx, 'b, 'o, 'err) process \<Rightarrow> ('w, 't) builder \<Rightarrow> string \<Rightarrow> ('o, 'err) built" where
  "CompleteWithContext P b ns =
     servicesWithContext P b ns (app_Services (builder_app b)) (new_appconfig b ns) []"

definition Build ::
  "('w, 't, 'ctx, 'b, 'o, 'err) process \<Rightarrow> string \<Rightarrow> ('w, 't) Appfile \<Rightarrow> ('o, 'err) built" where
  "Build P ns app = (let b = \<lparr>builder_app = app\<rparr> in CompleteWithContext P b ns)"

subsection \<open>\<^verbatim>\<open>builder.Complete\<close>, the stateless strategy\<close>

text \<open>The loop over a workload's traits (lines 70-76), each with a loader of its own.\<close>

fun evalTraitsStateless ::
  "('x iface, 'f, 'e, 'bi, 'inst) engine \<Rightarrow> ('w, 't, 'f, 'e, 'o, 'err) stateless
     \<Rightarrow> 'x iface \<Rightarrow> 't list \<Rightarrow> 'o ApplicationConfigurationComponent
     \<Rightarrow> 'err + 'o ApplicationConfigurationComponent" where
  "evalTraitsStateless E S compCtx [] acc = Inr acc"
| "evalTraitsStateless E S compCtx (trait # traits) acc =
     (case tr_Eval S trait (newLoader E compCtx) of
        Inl e \<Rightarrow> Inl e
      | Inr ctraits \<Rightarrow>
          evalTraitsStateless E S compCtx traits (acc\<lparr>Traits := Traits acc @ ctraits\<rparr>))"

fun servicesStateless ::
  "('x iface, 'f, 'e, 'bi, 'inst) engine \<Rightarrow> ('w, 't, 'f, 'e, 'o, 'err) stateless
     \<Rightarrow> ('w, 't) builder \<Rightarrow> string
     \<Rightarrow> ('w, 't) Workload list \<Rightarrow> 'o ApplicationConfiguration \<Rightarrow> 'o Component list
     \<Rightarrow> ('o, 'err) built" where
  "servicesStateless E S b ns [] appconfig componets = (Some appconfig, Some componets, None)"
| "servicesStateless E S b ns (wl # wls) appconfig componets =
     (let compCtx = MapStringString [''name'' \<mapsto> wl_Name wl]
      in case wl_Eval S wl (newLoader E compCtx) of
           Inl e \<Rightarrow> (None, None, Some e)
         | Inr component \<Rightarrow>
             (let component = component\<lparr>Namespace := ns\<rparr>;
                  component = component\<lparr>Name := wl_Name wl\<rparr>;
                  component = (if Labels component = None
                               then component\<lparr>Labels := Some Map.empty\<rparr> else component);
                  component = component\<lparr>Labels := map_option
                     (\<lambda>m. m(OamApplicationLabel \<mapsto> app_Name (builder_app b))) (Labels component)\<rparr>;
                  component = component\<lparr>TypeMeta := Some ComponentGroupVersionKind\<rparr>;
                  componets = componets @ [component];
                  acc = \<lparr>ComponentName = wl_Name wl, Traits = []\<rparr>
              in case evalTraitsStateless E S compCtx (wl_Traits wl) acc of
                   Inl e \<Rightarrow> (None, None, Some e)
                 | Inr acc \<Rightarrow>
                     servicesStateless E S b ns wls
                       (appconfig\<lparr>Spec_Components := Spec_Components appconfig @ [acc]\<rparr>)
                       componets))"

definition builder_Complete ::
  "('x iface, 'f, 'e, 'bi, 'inst) engine \<Rightarrow> ('w, 't, 'f, 'e, 'o, 'err) stateless
     \<Rightarrow> ('w, 't) builder \<Rightarrow> string \<Rightarrow> ('o, 'err) built" where
  "builder_Complete E S b ns =
     servicesStateless E S b ns (app_Services (builder_app b)) (new_appconfig b ns) []"

section \<open>One round of the builder's loop\<close>

text \<open>
  What one round of the loop of \<^verbatim>\<open>CompleteWithContext\<close> evaluates for a workload
  (lines 96-108): a fresh context, the workload, its traits in order, the extraction.
\<close>

definition renderWorkload ::
  "('w, 't, 'ctx, 'b, 'o, 'err) process \<Rightarrow> ('w, 't) Workload
     \<Rightarrow> 'err + ('o Component \<times> 'o ApplicationConfigurationComponent)" where
  "renderWorkload P wl =
     (case wl_EvalContext P wl (NewContext P (wl_Name wl)) of
        Inl e \<Rightarrow> Inl e
      | Inr pCtx \<Rightarrow>
          (case evalTraits P (wl_Traits wl) pCtx of
             Inl e \<Rightarrow> Inl e
           | Inr pCtx' \<Rightarrow> generateOAM P pCtx'))"

text \<open>The first error of a list of results, or all the values.\<close>

fun first_error :: "('e + 'a) list \<Rightarrow> 'e + 'a list" where
  "first_error [] = Inr []"
| "first_error (Inl e # rs) = Inl e"
| "first_error (Inr r # rs) = (case first_error rs of Inl e \<Rightarrow> Inl e | Inr xs \<Rightarrow> Inr (r # xs))"

text \<open>What the rounds write on a component (lines 109-117), and what they assemble.\<close>

definition stamp :: "string \<Rightarrow> string \<Rightarrow> string \<Rightarrow> 'o Component \<Rightarrow> 'o Component" where
  "stamp ns appName wlName c =
     c\<lparr>Name := wlName, Namespace := ns,
       Labels := Some ((case Labels c of None \<Rightarrow> Map.empty | Some m \<Rightarrow> m)
                        (OamApplicationLabel \<mapsto> appName)),
       TypeMeta := Some ComponentGroupVersionKind\<rparr>"

definition assemble ::
  "string \<Rightarrow> string \<Rightarrow> 'o ApplicationConfiguration \<Rightarrow> 'o Component list \<Rightarrow> string list
     \<Rightarrow> ('err + 'o Component \<times> 'o ApplicationConfigurationComponent) list \<Rightarrow> ('o, 'err) built" where
  "assemble ns appName appconfig componets names results =
     (case first_error results of
        Inl e \<Rightarrow> (None, None, Some e)
      | Inr rs \<Rightarrow>
          (Some (appconfig\<lparr>Spec_Components := Spec_Components appconfig
                    @ map2 (\<lambda>n r. (snd r)\<lparr>ComponentName := n\<rparr>) names rs\<rparr>),
           Some (componets @ map2 (\<lambda>n r. stamp ns appName n (fst r)) names rs),
           None))"

text \<open>The same for the stateless strategy (lines 49-76 of \<^verbatim>\<open>builder.Complete\<close>).\<close>

definition renderStateless ::
  "('x iface, 'f, 'e, 'bi, 'inst) engine \<Rightarrow> ('w, 't, 'f, 'e, 'o, 'err) stateless
     \<Rightarrow> ('w, 't) Workload \<Rightarrow> 'err + ('o Component \<times> 'o ApplicationConfigurationComponent)" where
  "renderStateless E S wl =
     (let compCtx = MapStringString [''name'' \<mapsto> wl_Name wl]
      in case wl_Eval S wl (newLoader E compCtx) of
           Inl e \<Rightarrow> Inl e
         | Inr component \<Rightarrow>
             (case evalTraitsStateless E S compCtx (wl_Traits wl)
                     \<lparr>ComponentName = wl_Name wl, Traits = []\<rparr> of
                Inl e \<Rightarrow> Inl e
              | Inr acc \<Rightarrow> Inr (component, acc)))"

section \<open>Properties of the collaborators\<close>

text \<open>
  A trait's evaluation appends what it renders to the assists of the context: \<open>outs tr pCtx\<close>
  is what the trait \<open>tr\<close> renders in the context \<open>pCtx\<close>. \<open>trait_outputs\<close> lists what
  the traits render, one list for each trait, each in the context the traits before it
  have left.
\<close>

definition appends_assists ::
  "('w, 't, 'ctx, 'b, 'o, 'err) process \<Rightarrow> ('t \<Rightarrow> 'ctx \<Rightarrow> 'b list) \<Rightarrow> bool" where
  "appends_assists P outs \<longleftrightarrow>
     (\<forall>tr pCtx pCtx'. tr_EvalContext P tr pCtx = Inr pCtx' \<longrightarrow>
        snd (ctx_Output P pCtx') = snd (ctx_Output P pCtx) @ outs tr pCtx)"

fun trait_outputs ::
  "('w, 't, 'ctx, 'b, 'o, 'err) process \<Rightarrow> ('t \<Rightarrow> 'ctx \<Rightarrow> 'b list) \<Rightarrow> 't list \<Rightarrow> 'ctx
     \<Rightarrow> 'b list list" where
  "trait_outputs P outs [] pCtx = []"
| "trait_outputs P outs (tr # trs) pCtx =
     outs tr pCtx #
       (case tr_EvalContext P tr pCtx of
          Inl e \<Rightarrow> []
        | Inr pCtx' \<Rightarrow> trait_outputs P outs trs pCtx')"

section \<open>Reading an error message\<close>

text \<open>
  The loader formats its messages with \<^verbatim>\<open>%s\<close> between blanks, and a wrapped error
  follows its message after a colon. A text names a fragment when the fragment's name is
  one of its words, the words being what stands between blanks and colons.
\<close>

fun words_from :: "string \<Rightarrow> string \<Rightarrow> string list" where
  "words_from [] w = [w]"
| "words_from (c # cs) w =
     (if c = CHR '' '' \<or> c = CHR '':'' then w # words_from cs [] else words_from cs (w @ [c]))"

definition names_fragment :: "string \<Rightarrow> string \<Rightarrow> bool" where
  "names_fragment msg name \<longleftrightarrow> name \<in> set (words_from msg [])"

text \<open>
  The name under which a call's parse error is reported, and whether the fragment of a
  call parses (lines 174, 188 and 202).
\<close>

fun call_fragment :: "'v render_call \<Rightarrow> string" where
  "call_fragment (CallTemplate raw) = ''template''"
| "call_fragment (CallContext ctx) = ''context''"
| "call_fragment (CallParams params) = ''parameter''"

fun call_parses :: "('v, 'f, 'e, 'bi, 'inst) engine \<Rightarrow> 'v render_call \<Rightarrow> bool" where
  "call_parses E (CallTemplate raw) \<longleftrightarrow> snd (cue_ParseFile E ''-'' raw) = None"
| "call_parses E (CallContext ctx) \<longleftrightarrow>
     snd (cue_ParseFile E ''context'' (marshal E ''context'' ctx)) = None"
| "call_parses E (CallParams params) \<longleftrightarrow>
     snd (cue_ParseFile E ''parameter'' (marshal E ''parameter'' params)) = None"

section \<open>Small collaborators to run the definitions on\<close>

text \<open>
  An engine over strings: a value is JSON text or unserializable (\<open>Iface None\<close>); a file
  is its source text, and does not parse when the text ends in a blank (a field with no
  value); a build instance is the list of the files added, in the order they were added;
  an instance is not concrete when one of its files holds the top value \<open>_\<close>.
\<close>

definition sample_json :: "string option iface \<Rightarrow> string option" where
  "sample_json v =
     (case v of
        MapStringString m \<Rightarrow>
          (case m ''name'' of None \<Rightarrow> Some ''{}'' | Some n \<Rightarrow> Some (''{name: '' @ n @ ''}''))
      | Iface x \<Rightarrow> x)"

definition sample_engine ::
  "(string option iface, string, string, string list, string list) engine" where
  "sample_engine =
     \<lparr>json_Marshal = sample_json,
      cue_ParseFile = (\<lambda>name src.
         (src, if src \<noteq> [] \<and> last src = CHR '' '' then Some ''expected operand'' else None)),
      build_NewInstance = [],
      cue_AddSyntax = (\<lambda>bi f. Inr (bi @ [f])),
      cue_Build = (\<lambda>bis. bis),
      cue_Validate = (\<lambda>inst.
         if \<exists>f \<in> set inst. CHR ''_'' \<in> set f then Some ''incomplete value'' else None)\<rparr>"

text \<open>
  An evaluation context over strings: the context is the workload's name, the base and
  the assists. A workload's definition is its rendered object, and \<open>!\<close> does not render.
  A trait is the list of the objects it renders; the entry \<open>context.output\<close> renders as
  the workload's object (\<open>render_entry\<close>), and a trait with the entry \<open>!\<close> does not
  render. The object \<open>?\<close> cannot be extracted.
\<close>

definition render_entry :: "string \<Rightarrow> string \<Rightarrow> string" where
  "render_entry base x = (if x = ''context.output'' then base else x)"

definition sample_process ::
  "(string, string list, string \<times> string \<times> string list, string, string, string) process" where
  "sample_process =
     \<lparr>NewContext = (\<lambda>name. (name, [], [])),
      wl_EvalContext = (\<lambda>wl (name, base, assists).
         if wl_Def wl = ''!'' then Inl ''workload does not render''
         else Inr (name, wl_Def wl, assists)),
      tr_EvalContext = (\<lambda>tr (name, base, assists).
         if ''!'' \<in> set tr then Inl ''trait does not render''
         else Inr (name, base, assists @ map (render_entry base) tr)),
      ctx_Output = (\<lambda>(name, base, assists). (base, assists)),
      inst_Object = (\<lambda>x. if x = ''?'' then Inl ''no object'' else Inr x)\<rparr>"

text \<open>
  The application \<open>web\<close> of the specification's scenario, with the workload \<open>front\<close> and
  two traits, and a second application whose workload \<open>back\<close> has a trait that does not
  render.
\<close>

definition web_app :: "(string, string list) Appfile" where
  "web_app =
     \<lparr>app_Name = ''web'',
      app_Services =
        [\<lparr>wl_Name = ''front'', wl_Traits = [[''scaler'', ''route''], [''context.output'']],
          wl_Def = ''deployment''\<rparr>]\<rparr>"

definition broken_app :: "(string, string list) Appfile" where
  "broken_app =
     \<lparr>app_Name = ''web'',
      app_Services =
        [\<lparr>wl_Name = ''front'', wl_Traits = [[''scaler'']], wl_Def = ''deployment''\<rparr>,
         \<lparr>wl_Name = ''back'', wl_Traits = [[''scaler''], [''!'']], wl_Def = ''statefulset''\<rparr>]\<rparr>"

text \<open>What the sample traits render in a sample context.\<close>

definition sample_outs :: "string list \<Rightarrow> string \<times> string \<times> string list \<Rightarrow> string list" where
  "sample_outs tr pCtx = map (render_entry (fst (snd pCtx))) tr"

text \<open>
  The graphs of the application \<open>web\<close> in the namespace \<open>ns\<close>; \<open>third\<close> is the object
  of the third trait entry.
\<close>

definition web_components :: "string \<Rightarrow> string Component list" where
  "web_components ns =
     [\<lparr>TypeMeta = Some ComponentGroupVersionKind, Name = ''front'', Namespace = ns,
       Labels = Some [''application.oam.dev'' \<mapsto> ''web''],
       Spec_Workload = \<lparr>Raw = [], Object = Some ''deployment''\<rparr>\<rparr>]"

definition web_appconfig :: "string \<Rightarrow> string \<Rightarrow> string ApplicationConfiguration" where
  "web_appconfig ns third =
     \<lparr>TypeMeta = Some ApplicationConfigurationGroupVersionKind, Name = ''web'', Namespace = ns,
      Labels = Some [''application.oam.dev'' \<mapsto> ''web''],
      Spec_Components =
        [\<lparr>ComponentName = ''front'',
          Traits = [\<lparr>Trait = \<lparr>Raw = [], Object = Some ''scaler''\<rparr>\<rparr>,
                    \<lparr>Trait = \<lparr>Raw = [], Object = Some ''route''\<rparr>\<rparr>,
                    \<lparr>Trait = \<lparr>Raw = [], Object = Some third\<rparr>\<rparr>]\<rparr>]\<rparr>"

section \<open>Evaluating the definitions\<close>

lemmas sample_defs = sample_process_def sample_engine_def sample_json_def
  render_entry_def web_app_def broken_app_def

lemmas build_defs = Build_def CompleteWithContext_def builder_Complete_def new_appconfig_def
  generateOAM_def zero_Component_def zero_ApplicationConfiguration_def Let_def

lemmas loader_defs = loader_Complete_def WithTemplate_def WithContext_def WithParams_def
  newLoader_def marshal_def

section \<open>The loader: sticky errors\<close>

lemma apply_calls_latched: "err l = Some e \<Longrightarrow> apply_calls E cs l = l"
proof (induction cs)
  case Nil
  then show ?case by simp
next
  case (Cons c cs)
  have "apply_call E c l = l"
    using Cons.prems by (cases c) (simp_all add: WithTemplate_def WithContext_def WithParams_def)
  then show ?case using Cons by simp
qed

text \<open>
  C4. Once an error is latched, any sequence of \<^verbatim>\<open>WithTemplate\<close>, \<^verbatim>\<open>WithContext\<close> and
  \<^verbatim>\<open>WithParams\<close> calls leaves the loader as it is, whatever the parser of the engine would
  answer (no parse is attempted), the latched error is still the first one, and
  \<^verbatim>\<open>Complete\<close> returns exactly that error, whatever the engine and the iteration order.
\<close>

theorem sticky_first_error:
  assumes "err l = Some e"
  shows "apply_calls E cs l = l
       \<and> err (apply_calls E cs l) = Some e
       \<and> loader_Complete E' ord (apply_calls E cs l) = Inl e"
  using assms by (simp add: apply_calls_latched loader_Complete_def)

theorem sticky_first_error_witness:
  "err (newLoader sample_engine (Iface None)) = Some (Errorf ''loader parse context error'')
   \<and> apply_calls sample_engine
        [CallTemplate ''replicas: 3'', CallParams (Iface (Some ''{n: 3}'')),
         CallContext (Iface (Some ''{}''))]
        (newLoader sample_engine (Iface None))
      = newLoader sample_engine (Iface None)
   \<and> loader_Complete sample_engine [''context'']
        (apply_calls sample_engine
           [CallTemplate ''replicas: 3'', CallParams (Iface (Some ''{n: 3}'')),
            CallContext (Iface (Some ''{}''))]
           (newLoader sample_engine (Iface None)))
      = Inl (Errorf ''loader parse context error'')"
proof -
  have h: "err (newLoader sample_engine (Iface None)) = Some (Errorf ''loader parse context error'')"
    by (simp add: newLoader_def marshal_def sample_engine_def sample_json_def)
  show ?thesis
    using h sticky_first_error [OF h, where E = sample_engine and E' = sample_engine
        and ord = "[''context'']"
        and cs = "[CallTemplate ''replicas: 3'', CallParams (Iface (Some ''{n: 3}'')),
                   CallContext (Iface (Some ''{}''))]"]
    by blast
qed

section \<open>The builder: all or nothing\<close>

lemma servicesWithContext_Cons:
  "servicesWithContext P b ns (wl # wls) appconfig componets =
     (case renderWorkload P wl of
        Inl e \<Rightarrow> (None, None, Some e)
      | Inr r \<Rightarrow>
          servicesWithContext P b ns wls
            (appconfig\<lparr>Spec_Components := Spec_Components appconfig
                @ [(snd r)\<lparr>ComponentName := wl_Name wl\<rparr>]\<rparr>)
            (componets @ [stamp ns (app_Name (builder_app b)) (wl_Name wl) (fst r)]))"
  by (cases "Labels (fst (projr (renderWorkload P wl)))")
     (auto simp: renderWorkload_def stamp_def Let_def
      split: sum.splits prod.splits option.splits)

lemma servicesWithContext_assemble:
  "servicesWithContext P b ns wls appconfig componets =
     assemble ns (app_Name (builder_app b)) appconfig componets
       (map wl_Name wls) (map (renderWorkload P) wls)"
proof (induction wls arbitrary: appconfig componets)
  case Nil
  then show ?case by (simp add: assemble_def)
next
  case (Cons wl wls)
  show ?case
    by (simp only: servicesWithContext_Cons Cons.IH)
       (cases "renderWorkload P wl"; simp add: assemble_def split: sum.splits)
qed

lemma first_error_length: "first_error rs = Inr xs \<Longrightarrow> length xs = length rs"
  by (induction rs arbitrary: xs rule: first_error.induct) (auto split: sum.splits)

lemma first_error_Inr: "first_error rs = Inr xs \<Longrightarrow> rs = map Inr xs"
  by (induction rs arbitrary: xs rule: first_error.induct) (auto split: sum.splits)

lemma first_error_Inl: "Inl e \<in> set rs \<Longrightarrow> \<exists>e'. first_error rs = Inl e'"
  by (induction rs rule: first_error.induct) (auto split: sum.splits)

lemma CompleteWithContext_assemble:
  "CompleteWithContext P b ns =
     assemble ns (app_Name (builder_app b)) (new_appconfig b ns) []
       (map wl_Name (app_Services (builder_app b)))
       (map (renderWorkload P) (app_Services (builder_app b)))"
  by (simp add: CompleteWithContext_def servicesWithContext_assemble)

lemma Build_assemble:
  "Build P ns app =
     assemble ns (app_Name app) (new_appconfig \<lparr>builder_app = app\<rparr> ns) []
       (map wl_Name (app_Services app)) (map (renderWorkload P) (app_Services app))"
  by (simp add: Build_def CompleteWithContext_assemble)

lemma evalTraits_fails:
  "evalTraits P pre pCtx = Inr pCtx1 \<Longrightarrow> tr_EvalContext P tr pCtx1 = Inl e \<Longrightarrow>
     evalTraits P (pre @ tr # post) pCtx = Inl e"
  by (induction pre arbitrary: pCtx) (auto split: sum.splits)

text \<open>
  C1. When, for some workload of the application, the workload's \<^verbatim>\<open>EvalContext\<close> returns
  an error, or one of its traits' \<^verbatim>\<open>EvalContext\<close> does (the traits before it having been
  evaluated), or \<^verbatim>\<open>generateOAM\<close> fails on the context, then \<^verbatim>\<open>CompleteWithContext\<close> and
  \<^verbatim>\<open>Build\<close> return an error with nil for the configuration and nil for the components,
  wherever the workload stands in the list.
\<close>

theorem all_or_nothing:
  assumes "wl \<in> set (app_Services app)"
    and "(\<exists>e. wl_EvalContext P wl (NewContext P (wl_Name wl)) = Inl e)
       \<or> (\<exists>pCtx pre tr post pCtx1 e.
             wl_EvalContext P wl (NewContext P (wl_Name wl)) = Inr pCtx
           \<and> wl_Traits wl = pre @ tr # post
           \<and> evalTraits P pre pCtx = Inr pCtx1
           \<and> tr_EvalContext P tr pCtx1 = Inl e)
       \<or> (\<exists>pCtx pCtx' e.
             wl_EvalContext P wl (NewContext P (wl_Name wl)) = Inr pCtx
           \<and> evalTraits P (wl_Traits wl) pCtx = Inr pCtx'
           \<and> generateOAM P pCtx' = Inl e)"
  shows "\<exists>e. CompleteWithContext P \<lparr>builder_app = app\<rparr> ns = (None, None, Some e)
            \<and> Build P ns app = (None, None, Some e)"
proof -
  from assms(2) obtain e where "renderWorkload P wl = Inl e"
    by (auto simp: renderWorkload_def evalTraits_fails)
  with assms(1) have "Inl e \<in> set (map (renderWorkload P) (app_Services app))"
    by force
  from first_error_Inl [OF this] obtain e' where
    "first_error (map (renderWorkload P) (app_Services app)) = Inl e'" ..
  then show ?thesis
    by (simp add: Build_def CompleteWithContext_assemble assemble_def)
qed

theorem all_or_nothing_witness:
  "\<lparr>wl_Name = ''back'', wl_Traits = [[''scaler''], [''!'']], wl_Def = ''statefulset''\<rparr>
      \<in> set (app_Services broken_app)
   \<and> (\<exists>e. CompleteWithContext sample_process \<lparr>builder_app = broken_app\<rparr> ''prod''
             = (None, None, Some e)
          \<and> Build sample_process ''prod'' broken_app = (None, None, Some e))
   \<and> Build sample_process ''prod'' broken_app = (None, None, Some ''trait does not render'')"
proof -
  let ?wl = "\<lparr>wl_Name = ''back'', wl_Traits = [[''scaler''], [''!'']], wl_Def = ''statefulset''\<rparr>"
  have m: "?wl \<in> set (app_Services broken_app)"
    by (simp add: broken_app_def)
  have c: "wl_EvalContext sample_process ?wl (NewContext sample_process (wl_Name ?wl))
             = Inr (''back'', ''statefulset'', [])
         \<and> wl_Traits ?wl = [[''scaler'']] @ [''!''] # []
         \<and> evalTraits sample_process [[''scaler'']] (''back'', ''statefulset'', [])
             = Inr (''back'', ''statefulset'', [''scaler''])
         \<and> tr_EvalContext sample_process [''!''] (''back'', ''statefulset'', [''scaler''])
             = Inl ''trait does not render''"
    by (simp add: sample_process_def render_entry_def)
  have f: "(\<exists>e. wl_EvalContext sample_process ?wl (NewContext sample_process (wl_Name ?wl)) = Inl e)
       \<or> (\<exists>pCtx pre tr post pCtx1 e.
             wl_EvalContext sample_process ?wl (NewContext sample_process (wl_Name ?wl)) = Inr pCtx
           \<and> wl_Traits ?wl = pre @ tr # post
           \<and> evalTraits sample_process pre pCtx = Inr pCtx1
           \<and> tr_EvalContext sample_process tr pCtx1 = Inl e)
       \<or> (\<exists>pCtx pCtx' e.
             wl_EvalContext sample_process ?wl (NewContext sample_process (wl_Name ?wl)) = Inr pCtx
           \<and> evalTraits sample_process (wl_Traits ?wl) pCtx = Inr pCtx'
           \<and> generateOAM sample_process pCtx' = Inl e)"
    using c by - (rule disjI2, rule disjI1, (rule exI)+, assumption)
  have v: "Build sample_process ''prod'' broken_app = (None, None, Some ''trait does not render'')"
    by (simp add: build_defs sample_defs)
  from all_or_nothing [OF m f, of "''prod''"] m v show ?thesis
    by (intro conjI)
qed

section \<open>The loader: serialization errors\<close>

text \<open>
  C10. \<^verbatim>\<open>marshal\<close> gives the key, a colon, a blank and the body, and the empty body when
  \<^verbatim>\<open>json.Marshal\<close> fails. \<^verbatim>\<open>newLoader\<close>, \<^verbatim>\<open>WithContext\<close> and \<^verbatim>\<open>WithParams\<close> return a
  loader for every value (they are total). When the value cannot be serialized and the
  fragment with the empty body does not parse, the loader holds the parse error of the
  key, and \<^verbatim>\<open>Complete\<close> returns it.
\<close>

theorem serialization_error_swallowed:
  "marshal E key v = key @ '': '' @ (case json_Marshal E v of None \<Rightarrow> [] | Some b \<Rightarrow> b)
   \<and> (json_Marshal E v = None \<longrightarrow> marshal E key v = key @ '': '')
   \<and> (json_Marshal E v = None \<and> snd (cue_ParseFile E ''context'' ''context: '') \<noteq> None \<longrightarrow>
        err (newLoader E v) = Some (Errorf ''loader parse context error'')
        \<and> loader_Complete E ord (newLoader E v) = Inl (Errorf ''loader parse context error''))
   \<and> (json_Marshal E v = None \<and> snd (cue_ParseFile E ''context'' ''context: '') \<noteq> None
        \<and> err l = None \<longrightarrow>
        err (WithContext E v l) = Some (Errorf ''loader parse context error'')
        \<and> loader_Complete E ord (WithContext E v l) = Inl (Errorf ''loader parse context error''))
   \<and> (json_Marshal E v = None \<and> snd (cue_ParseFile E ''parameter'' ''parameter: '') \<noteq> None
        \<and> err l = None \<longrightarrow>
        err (WithParams E v l) = Some (Errorf ''loader parse parameter error'')
        \<and> loader_Complete E ord (WithParams E v l) = Inl (Errorf ''loader parse parameter error''))"
  by (auto simp: marshal_def newLoader_def WithContext_def WithParams_def loader_Complete_def
      Let_def split: prod.splits)

theorem serialization_error_swallowed_witness:
  "json_Marshal sample_engine (Iface None) = None
   \<and> marshal sample_engine ''context'' (Iface None) = ''context: ''
   \<and> snd (cue_ParseFile sample_engine ''context'' ''context: '') \<noteq> None
   \<and> err (newLoader sample_engine (Iface None)) = Some (Errorf ''loader parse context error'')
   \<and> loader_Complete sample_engine [''context''] (newLoader sample_engine (Iface None))
      = Inl (Errorf ''loader parse context error'')"
proof -
  have j: "json_Marshal sample_engine (Iface None) = None"
    by (simp add: sample_defs)
  have p: "snd (cue_ParseFile sample_engine ''context'' ''context: '') \<noteq> None"
    by (simp add: sample_defs)
  note t = serialization_error_swallowed [where E = sample_engine and v = "Iface None"
      and key = "''context''" and ord = "[''context'']"]
  from t [THEN conjunct2, THEN conjunct1]
  have "json_Marshal sample_engine (Iface None) = None \<longrightarrow>
      marshal sample_engine ''context'' (Iface None) = ''context'' @ '': ''" .
  with j have m: "marshal sample_engine ''context'' (Iface None) = ''context: ''"
    by simp
  from t [THEN conjunct2, THEN conjunct2, THEN conjunct1]
  have "json_Marshal sample_engine (Iface None) = None
      \<and> snd (cue_ParseFile sample_engine ''context'' ''context: '') \<noteq> None \<longrightarrow>
        err (newLoader sample_engine (Iface None)) = Some (Errorf ''loader parse context error'')
      \<and> loader_Complete sample_engine [''context''] (newLoader sample_engine (Iface None))
          = Inl (Errorf ''loader parse context error'')" .
  with j p have
    "err (newLoader sample_engine (Iface None)) = Some (Errorf ''loader parse context error'')
      \<and> loader_Complete sample_engine [''context''] (newLoader sample_engine (Iface None))
          = Inl (Errorf ''loader parse context error'')"
    by (elim impE) (intro conjI)
  with j p m show ?thesis by simp
qed

section \<open>The loader: the concreteness gate\<close>

lemma validateAll_Inr:
  "validateAll E insts ret = Inr r \<Longrightarrow>
     (\<forall>inst \<in> set insts. cue_Validate E inst = None)
     \<and> r = (if insts = [] then ret else Some (last insts))"
  by (induction insts arbitrary: ret) (auto split: option.splits)

lemma validateAll_Inl:
  "inst \<in> set insts \<Longrightarrow> cue_Validate E inst = Some e \<Longrightarrow>
     \<exists>e'. validateAll E insts ret = Inl (WithMessagef e' ''loader cue-instance validate'')"
  by (induction insts arbitrary: ret) (auto split: option.splits)

lemma validateAll_Inl_conv:
  "validateAll E insts ret = Inl e \<Longrightarrow>
     \<exists>inst e'. inst \<in> set insts \<and> cue_Validate E inst = Some e'
        \<and> e = WithMessagef e' ''loader cue-instance validate''"
proof (induction insts arbitrary: ret)
  case Nil
  then show ?case by simp
next
  case (Cons a insts)
  show ?case
  proof (cases "cue_Validate E a")
    case None
    with Cons.prems have "validateAll E insts (Some a) = Inl e" by simp
    from Cons.IH [OF this] show ?thesis by auto
  next
    case (Some e0)
    with Cons.prems show ?thesis by auto
  qed
qed

text \<open>
  C5. For a loader with no error latched: \<^verbatim>\<open>Complete\<close> returns a result only when the
  fragments were all added and every instance the engine built passes the check
  \<^verbatim>\<open>Validate(cue.Concrete(true))\<close>, and the result is then the last instance; and when
  some instance fails that check, \<^verbatim>\<open>Complete\<close> returns the validation error, not a
  result.
\<close>

theorem concreteness_gate:
  assumes "err l = None"
  shows "(\<forall>r. loader_Complete E ord l = Inr r \<longrightarrow>
            (\<exists>bi. addFiles E (files l) ord (build_NewInstance E) = Inr bi
               \<and> (\<forall>inst \<in> set (cue_Build E [bi]). cue_Validate E inst = None)
               \<and> r = (if cue_Build E [bi] = [] then None else Some (last (cue_Build E [bi])))))
       \<and> (\<forall>bi inst e. addFiles E (files l) ord (build_NewInstance E) = Inr bi
            \<and> inst \<in> set (cue_Build E [bi]) \<and> cue_Validate E inst = Some e \<longrightarrow>
            (\<exists>e'. loader_Complete E ord l = Inl (WithMessagef e' ''loader cue-instance validate'')))"
proof (intro conjI allI impI)
  fix r assume "loader_Complete E ord l = Inr r"
  with assms obtain bi where bi: "addFiles E (files l) ord (build_NewInstance E) = Inr bi"
    and v: "validateAll E (cue_Build E [bi]) None = Inr r"
    by (auto simp: loader_Complete_def split: sum.splits)
  from validateAll_Inr [OF v] bi
  show "\<exists>bi. addFiles E (files l) ord (build_NewInstance E) = Inr bi
               \<and> (\<forall>inst \<in> set (cue_Build E [bi]). cue_Validate E inst = None)
               \<and> r = (if cue_Build E [bi] = [] then None else Some (last (cue_Build E [bi])))"
    by auto
next
  fix bi inst e
  assume h: "addFiles E (files l) ord (build_NewInstance E) = Inr bi
            \<and> inst \<in> set (cue_Build E [bi]) \<and> cue_Validate E inst = Some e"
  then obtain e' where
    "validateAll E (cue_Build E [bi]) None = Inl (WithMessagef e' ''loader cue-instance validate'')"
    using validateAll_Inl [of inst "cue_Build E [bi]" E e None] by auto
  with h assms
  show "\<exists>e'. loader_Complete E ord l = Inl (WithMessagef e' ''loader cue-instance validate'')"
    by (auto simp: loader_Complete_def)
qed

theorem concreteness_gate_witness:
  "err (WithTemplate sample_engine ''replicas: _'' (newLoader sample_engine (Iface (Some ''{}''))))
     = None
   \<and> cue_Validate sample_engine [''context: {}'', ''replicas: _''] = Some ''incomplete value''
   \<and> (\<exists>e'. loader_Complete sample_engine [''context'', ''-'']
          (WithTemplate sample_engine ''replicas: _'' (newLoader sample_engine (Iface (Some ''{}''))))
        = Inl (WithMessagef e' ''loader cue-instance validate''))"
proof -
  let ?l = "WithTemplate sample_engine ''replicas: _'' (newLoader sample_engine (Iface (Some ''{}'')))"
  have h: "err ?l = None"
    by (simp add: loader_defs sample_defs)
  have a: "addFiles sample_engine (files ?l) [''context'', ''-''] (build_NewInstance sample_engine)
      = Inr [''context: {}'', ''replicas: _'']"
    by (simp add: loader_defs sample_defs)
  have i: "[''context: {}'', ''replicas: _'']
      \<in> set (cue_Build sample_engine [[''context: {}'', ''replicas: _'']])"
    by (simp add: sample_defs)
  have v: "cue_Validate sample_engine [''context: {}'', ''replicas: _''] = Some ''incomplete value''"
    by (simp add: sample_defs)
  from concreteness_gate [OF h, where E = sample_engine and ord = "[''context'', ''-'']",
      THEN conjunct2, rule_format, OF conjI [OF a conjI [OF i v]]]
  have "\<exists>e'. loader_Complete sample_engine [''context'', ''-''] ?l
        = Inl (WithMessagef e' ''loader cue-instance validate'')" .
  with h v show ?thesis by (intro conjI)
qed

section \<open>The builder: what a successful compile returns\<close>

lemma assemble_Some:
  assumes "assemble ns an ac0 cs0 names results = (Some ac, Some cs, None)"
  shows "\<exists>rs. first_error results = Inr rs
            \<and> cs = cs0 @ map2 (\<lambda>n r. stamp ns an n (fst r)) names rs
            \<and> ac = ac0\<lparr>Spec_Components := Spec_Components ac0
                     @ map2 (\<lambda>n r. (snd r)\<lparr>ComponentName := n\<rparr>) names rs\<rparr>"
  using assms by (auto simp: assemble_def split: sum.splits)

lemma Spec_Components_new_appconfig [simp]: "Spec_Components (new_appconfig b ns) = []"
  by (simp add: new_appconfig_def zero_ApplicationConfiguration_def)

lemma Build_Some:
  assumes "Build P ns app = (Some appconfig, Some componets, None)"
  shows "\<exists>rs. map (renderWorkload P) (app_Services app) = map Inr rs
            \<and> length rs = length (app_Services app)
            \<and> componets = map2 (\<lambda>n r. stamp ns (app_Name app) n (fst r))
                  (map wl_Name (app_Services app)) rs
            \<and> Spec_Components appconfig = map2 (\<lambda>n r. (snd r)\<lparr>ComponentName := n\<rparr>)
                  (map wl_Name (app_Services app)) rs"
proof -
  from assemble_Some [OF assms [unfolded Build_assemble]] obtain rs where
    rs: "first_error (map (renderWorkload P) (app_Services app)) = Inr rs"
    and c: "componets = [] @ map2 (\<lambda>n r. stamp ns (app_Name app) n (fst r))
                  (map wl_Name (app_Services app)) rs"
    and a: "appconfig = (new_appconfig \<lparr>builder_app = app\<rparr> ns)\<lparr>Spec_Components :=
               Spec_Components (new_appconfig \<lparr>builder_app = app\<rparr> ns)
                     @ map2 (\<lambda>n r. (snd r)\<lparr>ComponentName := n\<rparr>) (map wl_Name (app_Services app)) rs\<rparr>"
    by blast
  from first_error_length [OF rs] have "length rs = length (app_Services app)"
    by simp
  with first_error_Inr [OF rs] c a show ?thesis
    by (intro exI [of _ rs]) simp
qed

lemma stamp_simps [simp]:
  "Name (stamp ns an n c) = n"
  "Namespace (stamp ns an n c) = ns"
  "TypeMeta (stamp ns an n c) = Some ComponentGroupVersionKind"
  "Spec_Workload (stamp ns an n c) = Spec_Workload c"
  "Labels (stamp ns an n c)
     = Some ((case Labels c of None \<Rightarrow> Map.empty | Some m \<Rightarrow> m)(OamApplicationLabel \<mapsto> an))"
  by (simp_all add: stamp_def)

lemma Build_web:
  "Build sample_process ns web_app
     = (Some (web_appconfig ns ''deployment''), Some (web_components ns), None)"
  by (simp add: build_defs sample_defs web_appconfig_def web_components_def OamApplicationLabel_def)

lemma CompleteWithContext_web:
  "CompleteWithContext sample_process \<lparr>builder_app = web_app\<rparr> ns
     = (Some (web_appconfig ns ''deployment''), Some (web_components ns), None)"
  by (simp add: build_defs sample_defs web_appconfig_def web_components_def OamApplicationLabel_def)

text \<open>
  C2. After a successful compile there is one component and one binding record for each
  workload, and for each workload the component has the namespace that was given (not
  empty when the given one is not), the workload's name as its name and the label
  \<^verbatim>\<open>application.oam.dev\<close> with the application's name, and the binding record's
  \<^verbatim>\<open>ComponentName\<close> is the component's name.
\<close>

theorem stamping:
  assumes "Build P ns app = (Some appconfig, Some componets, None)"
  shows "length componets = length (app_Services app)
       \<and> length (Spec_Components appconfig) = length (app_Services app)
       \<and> (\<forall>i < length (app_Services app).
             Namespace (componets ! i) = ns
           \<and> (ns \<noteq> [] \<longrightarrow> Namespace (componets ! i) \<noteq> [])
           \<and> Name (componets ! i) = wl_Name (app_Services app ! i)
           \<and> (\<exists>m. Labels (componets ! i) = Some m
                  \<and> m OamApplicationLabel = Some (app_Name app))
           \<and> ComponentName (Spec_Components appconfig ! i) = Name (componets ! i))"
proof -
  from Build_Some [OF assms] obtain rs where
    l: "length rs = length (app_Services app)"
    and c: "componets = map2 (\<lambda>n r. stamp ns (app_Name app) n (fst r))
                  (map wl_Name (app_Services app)) rs"
    and a: "Spec_Components appconfig = map2 (\<lambda>n r. (snd r)\<lparr>ComponentName := n\<rparr>)
                  (map wl_Name (app_Services app)) rs"
    by blast
  show ?thesis
    using l by (simp add: c a)
qed

theorem stamping_witness:
  "Build sample_process ''prod'' web_app
     = (Some (web_appconfig ''prod'' ''deployment''), Some (web_components ''prod''), None)
   \<and> Namespace (web_components ''prod'' ! 0) = ''prod''
   \<and> Name (web_components ''prod'' ! 0) = wl_Name (app_Services web_app ! 0)
   \<and> (\<exists>m. Labels (web_components ''prod'' ! 0) = Some m
          \<and> m OamApplicationLabel = Some (app_Name web_app))
   \<and> ComponentName (Spec_Components (web_appconfig ''prod'' ''deployment'') ! 0)
       = Name (web_components ''prod'' ! 0)"
proof -
  note v = Build_web [of "''prod''"]
  have i: "0 < length (app_Services web_app)"
    by (simp add: web_app_def)
  from stamping [OF v, THEN conjunct2, THEN conjunct2, rule_format, OF i] v
  show ?thesis by simp
qed

text \<open>
  As the specification words it, with a namespace that is never empty, the property fails
  for the empty namespace: the builder writes the namespace it is given, and checks nothing.
\<close>

theorem stamping_counterexample:
  "Build sample_process [] web_app
     = (Some (web_appconfig [] ''deployment''), Some (web_components []), None)
   \<and> map Namespace (web_components []) = [[]]"
  by (simp add: Build_web) (simp add: web_components_def)

section \<open>The builder: order\<close>

lemma assistTraits_Inr:
  "assistTraits P assists traits = Inr r \<Longrightarrow>
     \<exists>objs. map (inst_Object P) assists = map Inr objs
        \<and> r = traits @ map (\<lambda>obj. \<lparr>Trait = \<lparr>Raw = [], Object = Some obj\<rparr>\<rparr>) objs"
proof (induction assists arbitrary: traits)
  case Nil
  then show ?case by simp
next
  case (Cons a assists)
  from Cons.prems obtain obj where o: "inst_Object P a = Inr obj"
    and r: "assistTraits P assists (traits @ [\<lparr>Trait = \<lparr>Raw = [], Object = Some obj\<rparr>\<rparr>]) = Inr r"
    by (auto split: sum.splits)
  from Cons.IH [OF r] obtain objs where
    "map (inst_Object P) assists = map Inr objs"
    "r = (traits @ [\<lparr>Trait = \<lparr>Raw = [], Object = Some obj\<rparr>\<rparr>])
           @ map (\<lambda>obj. \<lparr>Trait = \<lparr>Raw = [], Object = Some obj\<rparr>\<rparr>) objs"
    by blast
  with o show ?case
    by (intro exI [of _ "obj # objs"]) simp
qed

lemma generateOAM_Inr:
  "generateOAM P pCtx = Inr r \<Longrightarrow>
     \<exists>objs. map (inst_Object P) (snd (ctx_Output P pCtx)) = map Inr objs
        \<and> Traits (snd r) = map (\<lambda>obj. \<lparr>Trait = \<lparr>Raw = [], Object = Some obj\<rparr>\<rparr>) objs"
  by (auto simp: generateOAM_def Let_def split: prod.splits sum.splits dest!: assistTraits_Inr)

lemma evalTraits_appends:
  assumes "appends_assists P outs"
  shows "evalTraits P trs pCtx = Inr pCtx' \<Longrightarrow>
     snd (ctx_Output P pCtx') = snd (ctx_Output P pCtx) @ concat (trait_outputs P outs trs pCtx)"
proof (induction trs arbitrary: pCtx)
  case Nil
  then show ?case by simp
next
  case (Cons tr trs)
  from Cons.prems obtain p1 where p1: "tr_EvalContext P tr pCtx = Inr p1"
    and r: "evalTraits P trs p1 = Inr pCtx'"
    by (auto split: sum.splits)
  from assms p1 have "snd (ctx_Output P p1) = snd (ctx_Output P pCtx) @ outs tr pCtx"
    by (simp add: appends_assists_def)
  with Cons.IH [OF r] p1 show ?case by simp
qed

lemma renderWorkload_Inr:
  assumes "renderWorkload P wl = Inr r"
  shows "\<exists>pCtx0 pCtx objs.
           wl_EvalContext P wl (NewContext P (wl_Name wl)) = Inr pCtx0
         \<and> evalTraits P (wl_Traits wl) pCtx0 = Inr pCtx
         \<and> map (inst_Object P) (snd (ctx_Output P pCtx)) = map Inr objs
         \<and> Traits (snd r) = map (\<lambda>obj. \<lparr>Trait = \<lparr>Raw = [], Object = Some obj\<rparr>\<rparr>) objs
         \<and> (\<forall>outs. appends_assists P outs \<longrightarrow>
               snd (ctx_Output P pCtx) = snd (ctx_Output P pCtx0)
                  @ concat (trait_outputs P outs (wl_Traits wl) pCtx0))"
proof -
  from assms obtain pCtx0 pCtx where
    a: "wl_EvalContext P wl (NewContext P (wl_Name wl)) = Inr pCtx0"
    and b: "evalTraits P (wl_Traits wl) pCtx0 = Inr pCtx"
    and c: "generateOAM P pCtx = Inr r"
    by (auto simp: renderWorkload_def split: sum.splits)
  from generateOAM_Inr [OF c] obtain objs where
    d: "map (inst_Object P) (snd (ctx_Output P pCtx)) = map Inr objs"
       "Traits (snd r) = map (\<lambda>obj. \<lparr>Trait = \<lparr>Raw = [], Object = Some obj\<rparr>\<rparr>) objs"
    by blast
  from a b d evalTraits_appends [OF _ b] show ?thesis
    by blast
qed

lemma appends_assists_sample: "appends_assists sample_process sample_outs"
  by (simp add: appends_assists_def sample_process_def sample_outs_def split: if_splits)

text \<open>
  C3. After a successful compile the binding records carry the workloads' names in the
  order of the services, and so do the components. For each workload, its
  \<^verbatim>\<open>EvalContext\<close> and then its traits' \<^verbatim>\<open>EvalContext\<close>, in the order the traits are
  declared, have run on one context, and the record's traits are the objects of that
  context's assists, one entry for each assist, in the order of the assists. When a
  trait's evaluation appends what it renders to the assists, the assists are those the
  workload left followed by what the first trait rendered, then the second, and so on: a
  trait that renders several objects has its entries in a row, at its place.
\<close>

theorem order_preservation:
  assumes "CompleteWithContext P b ns = (Some appconfig, Some componets, None)"
  shows "map ComponentName (Spec_Components appconfig) = map wl_Name (app_Services (builder_app b))
       \<and> map Name componets = map wl_Name (app_Services (builder_app b))
       \<and> (\<forall>i < length (app_Services (builder_app b)).
            \<exists>pCtx0 pCtx objs.
               wl_EvalContext P (app_Services (builder_app b) ! i)
                  (NewContext P (wl_Name (app_Services (builder_app b) ! i))) = Inr pCtx0
             \<and> evalTraits P (wl_Traits (app_Services (builder_app b) ! i)) pCtx0 = Inr pCtx
             \<and> map (inst_Object P) (snd (ctx_Output P pCtx)) = map Inr objs
             \<and> Traits (Spec_Components appconfig ! i)
                 = map (\<lambda>obj. \<lparr>Trait = \<lparr>Raw = [], Object = Some obj\<rparr>\<rparr>) objs
             \<and> (\<forall>outs. appends_assists P outs \<longrightarrow>
                   snd (ctx_Output P pCtx) = snd (ctx_Output P pCtx0)
                     @ concat (trait_outputs P outs
                         (wl_Traits (app_Services (builder_app b) ! i)) pCtx0)))"
proof -
  let ?wls = "app_Services (builder_app b)"
  have eq: "\<lparr>builder_app = builder_app b\<rparr> = b"
    by (cases b) simp
  have "Build P ns (builder_app b) = (Some appconfig, Some componets, None)"
    unfolding Build_def Let_def eq by (rule assms)
  from Build_Some [OF this] obtain rs where
    m: "map (renderWorkload P) ?wls = map Inr rs"
    and l: "length rs = length ?wls"
    and c: "componets = map2 (\<lambda>n r. stamp ns (app_Name (builder_app b)) n (fst r))
                  (map wl_Name ?wls) rs"
    and a: "Spec_Components appconfig = map2 (\<lambda>n r. (snd r)\<lparr>ComponentName := n\<rparr>)
                  (map wl_Name ?wls) rs"
    by blast
  have n1: "map ComponentName (Spec_Components appconfig) = map wl_Name ?wls"
    using l by (simp add: a list_eq_iff_nth_eq)
  have n2: "map Name componets = map wl_Name ?wls"
    using l by (simp add: c list_eq_iff_nth_eq)
  have n3: "\<exists>pCtx0 pCtx objs.
               wl_EvalContext P (?wls ! i) (NewContext P (wl_Name (?wls ! i))) = Inr pCtx0
             \<and> evalTraits P (wl_Traits (?wls ! i)) pCtx0 = Inr pCtx
             \<and> map (inst_Object P) (snd (ctx_Output P pCtx)) = map Inr objs
             \<and> Traits (Spec_Components appconfig ! i)
                 = map (\<lambda>obj. \<lparr>Trait = \<lparr>Raw = [], Object = Some obj\<rparr>\<rparr>) objs
             \<and> (\<forall>outs. appends_assists P outs \<longrightarrow>
                   snd (ctx_Output P pCtx) = snd (ctx_Output P pCtx0)
                     @ concat (trait_outputs P outs (wl_Traits (?wls ! i)) pCtx0))"
    if i: "i < length ?wls" for i
  proof -
    from m i l have "renderWorkload P (?wls ! i) = Inr (rs ! i)"
      by (metis length_map nth_map)
    from renderWorkload_Inr [OF this] i l show ?thesis
      by (simp add: a)
  qed
  from n1 n2 n3 show ?thesis by blast
qed


theorem order_preservation_witness:
  "CompleteWithContext sample_process \<lparr>builder_app = web_app\<rparr> ''prod''
     = (Some (web_appconfig ''prod'' ''deployment''), Some (web_components ''prod''), None)
   \<and> map ComponentName (Spec_Components (web_appconfig ''prod'' ''deployment''))
       = map wl_Name (app_Services (builder_app \<lparr>builder_app = web_app\<rparr>))
   \<and> map Name (web_components ''prod'')
       = map wl_Name (app_Services (builder_app \<lparr>builder_app = web_app\<rparr>))
   \<and> appends_assists sample_process sample_outs
   \<and> (\<exists>pCtx. evalTraits sample_process [[''scaler'', ''route''], [''context.output'']]
                 (''front'', ''deployment'', []) = Inr pCtx
          \<and> snd (ctx_Output sample_process pCtx)
              = concat [[''scaler'', ''route''], [''deployment'']])
   \<and> map (\<lambda>t. Object (Trait t)) (Traits (Spec_Components (web_appconfig ''prod'' ''deployment'') ! 0))
       = map Some (concat [[''scaler'', ''route''], [''deployment'']])"
proof -
  let ?b = "\<lparr>builder_app = web_app\<rparr>"
  note v = CompleteWithContext_web [of "''prod''"]
  note t = order_preservation [OF v]
  have i: "0 < length (app_Services (builder_app ?b))"
    by (simp add: web_app_def)
  from t [THEN conjunct2, THEN conjunct2, rule_format, OF i]
  obtain pCtx0 pCtx objs where
    a: "wl_EvalContext sample_process (app_Services (builder_app ?b) ! 0)
          (NewContext sample_process (wl_Name (app_Services (builder_app ?b) ! 0))) = Inr pCtx0"
    and e: "evalTraits sample_process (wl_Traits (app_Services (builder_app ?b) ! 0)) pCtx0 = Inr pCtx"
    and o: "map (inst_Object sample_process) (snd (ctx_Output sample_process pCtx)) = map Inr objs"
    and r: "Traits (Spec_Components (web_appconfig ''prod'' ''deployment'') ! 0)
                 = map (\<lambda>obj. \<lparr>Trait = \<lparr>Raw = [], Object = Some obj\<rparr>\<rparr>) objs"
    and c: "\<forall>outs. appends_assists sample_process outs \<longrightarrow>
                   snd (ctx_Output sample_process pCtx) = snd (ctx_Output sample_process pCtx0)
                     @ concat (trait_outputs sample_process outs
                         (wl_Traits (app_Services (builder_app ?b) ! 0)) pCtx0)"
    by blast
  from a have p0: "pCtx0 = (''front'', ''deployment'', [])"
    by (simp add: sample_process_def web_app_def)
  from e have e': "evalTraits sample_process [[''scaler'', ''route''], [''context.output'']]
                 (''front'', ''deployment'', []) = Inr pCtx"
    by (simp add: p0 web_app_def)
  from c [rule_format, OF appends_assists_sample]
  have s: "snd (ctx_Output sample_process pCtx) = concat [[''scaler'', ''route''], [''deployment'']]"
    by (simp add: p0 web_app_def sample_process_def sample_outs_def render_entry_def)
  have x: "\<exists>pCtx. evalTraits sample_process [[''scaler'', ''route''], [''context.output'']]
                 (''front'', ''deployment'', []) = Inr pCtx
          \<and> snd (ctx_Output sample_process pCtx)
              = concat [[''scaler'', ''route''], [''deployment'']]"
    using e' s by (intro exI [of _ pCtx] conjI)
  have y: "map (\<lambda>t. Object (Trait t)) (Traits (Spec_Components (web_appconfig ''prod'' ''deployment'') ! 0))
       = map Some (concat [[''scaler'', ''route''], [''deployment'']])"
    by (simp add: web_appconfig_def)
  from v t [THEN conjunct1] t [THEN conjunct2, THEN conjunct1] appends_assists_sample x y
  show ?thesis by (intro conjI)
qed

section \<open>The loader: replacing a fragment\<close>











section \<open>The loader: what an error says\<close>

lemma newLoader_err_eq:
  "err (newLoader E ctx) =
     (if snd (cue_ParseFile E ''context'' (marshal E ''context'' ctx)) = None then None
      else Some (Errorf ''loader parse context error''))"
  by (simp add: newLoader_def Let_def split: prod.splits)

lemma apply_call_err_eq:
  "err l = None \<Longrightarrow> err (apply_call E c l) =
     (if call_parses E c then None
      else Some (Errorf (''loader parse '' @ call_fragment c @ '' error'')))"
  by (cases c) (simp_all add: WithTemplate_def WithContext_def WithParams_def Let_def
      split: prod.splits)

lemma apply_calls_append:
  "apply_calls E (xs @ ys) l = apply_calls E ys (apply_calls E xs l)"
  by (induction xs arbitrary: l) simp_all

lemma apply_calls_err_decomp:
  "err (apply_calls E cs l) = Some e \<Longrightarrow>
     err l = Some e
     \<or> (\<exists>cs1 c cs2. cs = cs1 @ c # cs2 \<and> err (apply_calls E cs1 l) = None
           \<and> \<not> call_parses E c
           \<and> e = Errorf (''loader parse '' @ call_fragment c @ '' error''))"
proof (induction cs arbitrary: l)
  case Nil
  then show ?case by simp
next
  case (Cons c cs)
  show ?case
  proof (cases "err l")
    case (Some e0)
    from apply_calls_latched [OF Some, of E "c # cs"] Cons.prems Some
    have "err l = Some e" by simp
    then show ?thesis by (rule disjI1)
  next
    case None
    from Cons.prems have p: "err (apply_calls E cs (apply_call E c l)) = Some e"
      by simp
    from Cons.IH [OF p] show ?thesis
    proof (elim disjE exE conjE)
      assume a: "err (apply_call E c l) = Some e"
      with apply_call_err_eq [OF None, of E c]
      have n: "\<not> call_parses E c"
        and e: "e = Errorf (''loader parse '' @ call_fragment c @ '' error'')"
        by (simp_all split: if_splits)
      have "c # cs = [] @ c # cs \<and> err (apply_calls E [] l) = None \<and> \<not> call_parses E c
           \<and> e = Errorf (''loader parse '' @ call_fragment c @ '' error'')"
        using None n e by (intro conjI) simp_all
      then show ?thesis by (intro disjI2 exI)
    next
      fix cs1 c' cs2
      assume a: "cs = cs1 @ c' # cs2" "err (apply_calls E cs1 (apply_call E c l)) = None"
        "\<not> call_parses E c'" "e = Errorf (''loader parse '' @ call_fragment c' @ '' error'')"
      have "c # cs = (c # cs1) @ c' # cs2 \<and> err (apply_calls E (c # cs1) l) = None
           \<and> \<not> call_parses E c'
           \<and> e = Errorf (''loader parse '' @ call_fragment c' @ '' error'')"
        using a by (intro conjI) simp_all
      then show ?thesis by (intro disjI2 exI)
    qed
  qed
qed

lemma apply_call_dom:
  "dom (files (apply_call E c l)) \<subseteq> dom (files l) \<union> {''context'', ''parameter'', ''-''}"
proof (cases "err l")
  case None
  then show ?thesis
    by (cases c) (auto simp: WithTemplate_def WithContext_def WithParams_def Let_def
        split: prod.splits)
next
  case (Some e0)
  then have "apply_call E c l = l"
    by (cases c) (simp_all add: WithTemplate_def WithContext_def WithParams_def)
  then have "dom (files (apply_call E c l)) = dom (files l)" by simp
  then show ?thesis by blast
qed

lemma apply_calls_dom:
  "dom (files (apply_calls E cs l)) \<subseteq> dom (files l) \<union> {''context'', ''parameter'', ''-''}"
proof (induction cs arbitrary: l)
  case Nil
  then show ?case by auto
next
  case (Cons c cs)
  from Cons.IH [of "apply_call E c l"] apply_call_dom [of E c l]
  show ?case by auto
qed

lemma newLoader_dom: "dom (files (newLoader E ctx)) = {''context''}"
  by (auto simp: newLoader_def Let_def split: prod.splits if_splits)

lemma addFiles_append:
  "addFiles E fs (xs @ ys) bi =
     (case addFiles E fs xs bi of Inl e \<Rightarrow> Inl e | Inr b \<Rightarrow> addFiles E fs ys b)"
  by (induction xs arbitrary: bi) (simp_all split: option.splits sum.splits)

lemma addFiles_Inl_decomp:
  "addFiles E fs ord bi0 = Inl e \<Longrightarrow>
     \<exists>pre k post f bi e'. ord = pre @ k # post \<and> addFiles E fs pre bi0 = Inr bi
        \<and> fs k = Some f \<and> cue_AddSyntax E bi f = Inl e'
        \<and> e = WithMessagef e' (''loader AddSyntax '' @ k)"
proof (induction ord arbitrary: bi0)
  case Nil
  then show ?case by simp
next
  case (Cons k ord)
  show ?case
  proof (cases "fs k")
    case None
    with Cons.prems have "addFiles E fs ord bi0 = Inl e" by simp
    from Cons.IH [OF this] obtain pre k' post f bi e' where
      a: "ord = pre @ k' # post" "addFiles E fs pre bi0 = Inr bi" "fs k' = Some f"
        "cue_AddSyntax E bi f = Inl e'" "e = WithMessagef e' (''loader AddSyntax '' @ k')"
      by (elim exE conjE)
    have "k # ord = (k # pre) @ k' # post \<and> addFiles E fs (k # pre) bi0 = Inr bi
        \<and> fs k' = Some f \<and> cue_AddSyntax E bi f = Inl e'
        \<and> e = WithMessagef e' (''loader AddSyntax '' @ k')"
      using a None by (intro conjI) simp_all
    then show ?thesis by (intro exI)
  next
    case (Some f0)
    show ?thesis
    proof (cases "cue_AddSyntax E bi0 f0")
      case (Inl e0)
      with Some Cons.prems have e: "e = WithMessagef e0 (''loader AddSyntax '' @ k)" by simp
      have "k # ord = [] @ k # ord \<and> addFiles E fs [] bi0 = Inr bi0
        \<and> fs k = Some f0 \<and> cue_AddSyntax E bi0 f0 = Inl e0
        \<and> e = WithMessagef e0 (''loader AddSyntax '' @ k)"
        using Some Inl e by (intro conjI) simp_all
      then show ?thesis by (intro exI)
    next
      case (Inr b1)
      with Some Cons.prems have "addFiles E fs ord b1 = Inl e" by simp
      from Cons.IH [OF this] obtain pre k' post f bi e' where
        a: "ord = pre @ k' # post" "addFiles E fs pre b1 = Inr bi" "fs k' = Some f"
          "cue_AddSyntax E bi f = Inl e'" "e = WithMessagef e' (''loader AddSyntax '' @ k')"
        by (elim exE conjE)
      have "k # ord = (k # pre) @ k' # post \<and> addFiles E fs (k # pre) bi0 = Inr bi
        \<and> fs k' = Some f \<and> cue_AddSyntax E bi f = Inl e'
        \<and> e = WithMessagef e' (''loader AddSyntax '' @ k')"
        using a Some Inr by (intro conjI) simp_all
      then show ?thesis by (intro exI)
    qed
  qed
qed

lemma validateAll_passed:
  "\<forall>i \<in> set xs. cue_Validate E i = None \<Longrightarrow>
     validateAll E (xs @ ys) ret = validateAll E ys (if xs = [] then ret else Some (last xs))"
  by (induction xs arbitrary: ret) simp_all

lemma validateAll_Inl_decomp:
  "validateAll E insts ret = Inl e \<Longrightarrow>
     \<exists>ipre inst ipost e'. insts = ipre @ inst # ipost
        \<and> (\<forall>i \<in> set ipre. cue_Validate E i = None)
        \<and> cue_Validate E inst = Some e'
        \<and> e = WithMessagef e' ''loader cue-instance validate''"
proof (induction insts arbitrary: ret)
  case Nil
  then show ?case by simp
next
  case (Cons a insts)
  show ?case
  proof (cases "cue_Validate E a")
    case None
    with Cons.prems have "validateAll E insts (Some a) = Inl e" by simp
    from Cons.IH [OF this] obtain ipre inst ipost e' where
      b: "insts = ipre @ inst # ipost" "\<forall>i \<in> set ipre. cue_Validate E i = None"
        "cue_Validate E inst = Some e'" "e = WithMessagef e' ''loader cue-instance validate''"
      by (elim exE conjE)
    have "a # insts = (a # ipre) @ inst # ipost
        \<and> (\<forall>i \<in> set (a # ipre). cue_Validate E i = None)
        \<and> cue_Validate E inst = Some e'
        \<and> e = WithMessagef e' ''loader cue-instance validate''"
      using b None by (intro conjI) simp_all
    then show ?thesis by (intro exI)
  next
    case (Some e0)
    with Cons.prems have e: "e = WithMessagef e0 ''loader cue-instance validate''" by simp
    have "a # insts = [] @ a # insts
        \<and> (\<forall>i \<in> set []. cue_Validate E i = None)
        \<and> cue_Validate E a = Some e0
        \<and> e = WithMessagef e0 ''loader cue-instance validate''"
      using Some e by (intro conjI) simp_all
    then show ?thesis by (intro exI)
  qed
qed

lemma parse_stage_newLoader:
  "snd (cue_ParseFile E ''context'' (marshal E ''context'' ctx)) \<noteq> None \<longrightarrow>
     loader_Complete E ord (apply_calls E cs (newLoader E ctx))
       = Inl (Errorf ''loader parse context error'')"
proof
  assume "snd (cue_ParseFile E ''context'' (marshal E ''context'' ctx)) \<noteq> None"
  then have l: "err (newLoader E ctx) = Some (Errorf ''loader parse context error'')"
    by (simp add: newLoader_err_eq)
  from apply_calls_latched [OF l, of E cs] l
  show "loader_Complete E ord (apply_calls E cs (newLoader E ctx))
       = Inl (Errorf ''loader parse context error'')"
    by (simp add: loader_Complete_def)
qed

lemma names_call_fragment:
  "names_fragment (message txt (Errorf (''loader parse '' @ call_fragment c @ '' error'')))
     (call_fragment c)"
  by (cases c) (simp_all add: names_fragment_def)

lemma parse_stage_call:
  "err l = None \<and> \<not> call_parses E c \<longrightarrow>
     loader_Complete E ord (apply_calls E cs (apply_call E c l))
       = Inl (Errorf (''loader parse '' @ call_fragment c @ '' error''))
     \<and> names_fragment (message txt (Errorf (''loader parse '' @ call_fragment c @ '' error'')))
          (call_fragment c)"
proof (intro impI conjI)
  assume h: "err l = None \<and> \<not> call_parses E c"
  then have l: "err (apply_call E c l)
      = Some (Errorf (''loader parse '' @ call_fragment c @ '' error''))"
    by (simp add: apply_call_err_eq)
  from apply_calls_latched [OF l, of E cs] l
  show "loader_Complete E ord (apply_calls E cs (apply_call E c l))
       = Inl (Errorf (''loader parse '' @ call_fragment c @ '' error''))"
    by (simp add: loader_Complete_def)
qed (rule names_call_fragment)

lemma assembly_stage:
  "err l = None \<and> ord = pre @ k # post
     \<and> addFiles E (files l) pre (build_NewInstance E) = Inr bi
     \<and> files l k = Some f \<and> cue_AddSyntax E bi f = Inl e' \<longrightarrow>
     loader_Complete E ord l = Inl (WithMessagef e' (''loader AddSyntax '' @ k))"
  by (simp add: loader_Complete_def addFiles_append)

lemma names_key:
  "k \<in> {''context'', ''parameter'', ''-''} \<longrightarrow>
     names_fragment (message txt (WithMessagef e' (''loader AddSyntax '' @ k))) k"
proof
  assume "k \<in> {''context'', ''parameter'', ''-''}"
  then consider "k = ''context''" | "k = ''parameter''" | "k = ''-''"
    by (simp only: insert_iff empty_iff) (elim disjE FalseE; simp)
  then show "names_fragment (message txt (WithMessagef e' (''loader AddSyntax '' @ k))) k"
    by cases (simp_all add: names_fragment_def)
qed

lemma validation_stage:
  "err l = None \<and> addFiles E (files l) ord (build_NewInstance E) = Inr bi
     \<and> cue_Build E [bi] = ipre @ inst # ipost
     \<and> (\<forall>i \<in> set ipre. cue_Validate E i = None)
     \<and> cue_Validate E inst = Some e' \<longrightarrow>
     loader_Complete E ord l = Inl (WithMessagef e' ''loader cue-instance validate'')
     \<and> message txt (WithMessagef e' ''loader cue-instance validate'')
         = ''loader cue-instance validate: '' @ txt e'"
  by (simp add: loader_Complete_def validateAll_passed)

lemma stages_exhaustive:
  "loader_Complete E ord (apply_calls E cs (newLoader E ctx)) = Inl e \<longrightarrow>
     (snd (cue_ParseFile E ''context'' (marshal E ''context'' ctx)) \<noteq> None
        \<and> e = Errorf ''loader parse context error'')
     \<or> (\<exists>cs1 c cs2. cs = cs1 @ c # cs2
           \<and> err (apply_calls E cs1 (newLoader E ctx)) = None
           \<and> \<not> call_parses E c
           \<and> e = Errorf (''loader parse '' @ call_fragment c @ '' error''))
     \<or> (err (apply_calls E cs (newLoader E ctx)) = None
         \<and> (\<exists>pre k post f bi e'. ord = pre @ k # post
               \<and> k \<in> {''context'', ''parameter'', ''-''}
               \<and> addFiles E (files (apply_calls E cs (newLoader E ctx))) pre
                    (build_NewInstance E) = Inr bi
               \<and> files (apply_calls E cs (newLoader E ctx)) k = Some f
               \<and> cue_AddSyntax E bi f = Inl e'
               \<and> e = WithMessagef e' (''loader AddSyntax '' @ k)))
     \<or> (err (apply_calls E cs (newLoader E ctx)) = None
         \<and> (\<exists>bi ipre inst ipost e'.
               addFiles E (files (apply_calls E cs (newLoader E ctx))) ord
                    (build_NewInstance E) = Inr bi
               \<and> cue_Build E [bi] = ipre @ inst # ipost
               \<and> (\<forall>i \<in> set ipre. cue_Validate E i = None)
               \<and> cue_Validate E inst = Some e'
               \<and> e = WithMessagef e' ''loader cue-instance validate''))"
proof
  let ?l = "apply_calls E cs (newLoader E ctx)"
  assume c: "loader_Complete E ord ?l = Inl e"
  show "(snd (cue_ParseFile E ''context'' (marshal E ''context'' ctx)) \<noteq> None
        \<and> e = Errorf ''loader parse context error'')
     \<or> (\<exists>cs1 c cs2. cs = cs1 @ c # cs2
           \<and> err (apply_calls E cs1 (newLoader E ctx)) = None
           \<and> \<not> call_parses E c
           \<and> e = Errorf (''loader parse '' @ call_fragment c @ '' error''))
     \<or> (err ?l = None
         \<and> (\<exists>pre k post f bi e'. ord = pre @ k # post
               \<and> k \<in> {''context'', ''parameter'', ''-''}
               \<and> addFiles E (files ?l) pre (build_NewInstance E) = Inr bi
               \<and> files ?l k = Some f
               \<and> cue_AddSyntax E bi f = Inl e'
               \<and> e = WithMessagef e' (''loader AddSyntax '' @ k)))
     \<or> (err ?l = None
         \<and> (\<exists>bi ipre inst ipost e'.
               addFiles E (files ?l) ord (build_NewInstance E) = Inr bi
               \<and> cue_Build E [bi] = ipre @ inst # ipost
               \<and> (\<forall>i \<in> set ipre. cue_Validate E i = None)
               \<and> cue_Validate E inst = Some e'
               \<and> e = WithMessagef e' ''loader cue-instance validate''))"
  proof (cases "err ?l")
    case (Some e0)
    with c have "e = e0" by (simp add: loader_Complete_def)
    with Some have s: "err ?l = Some e" by simp
    from apply_calls_err_decomp [OF s] show ?thesis
    proof (elim disjE)
      assume n: "err (newLoader E ctx) = Some e"
      then have "snd (cue_ParseFile E ''context'' (marshal E ''context'' ctx)) \<noteq> None
        \<and> e = Errorf ''loader parse context error''"
        by (simp add: newLoader_err_eq split: if_splits)
      then show ?thesis by (rule disjI1)
    next
      assume "\<exists>cs1 c cs2. cs = cs1 @ c # cs2
           \<and> err (apply_calls E cs1 (newLoader E ctx)) = None
           \<and> \<not> call_parses E c
           \<and> e = Errorf (''loader parse '' @ call_fragment c @ '' error'')"
      then show ?thesis by (intro disjI2 disjI1)
    qed
  next
    case None
    show ?thesis
    proof (cases "addFiles E (files ?l) ord (build_NewInstance E)")
      case (Inl e1)
      with None c have "e = e1" by (simp add: loader_Complete_def)
      with Inl have a: "addFiles E (files ?l) ord (build_NewInstance E) = Inl e" by simp
      from addFiles_Inl_decomp [OF a] obtain pre k post f bi e' where
        d: "ord = pre @ k # post" "addFiles E (files ?l) pre (build_NewInstance E) = Inr bi"
          "files ?l k = Some f" "cue_AddSyntax E bi f = Inl e'"
          "e = WithMessagef e' (''loader AddSyntax '' @ k)"
        by (elim exE conjE)
      from d(3) have "k \<in> dom (files ?l)" by (rule domI)
      with apply_calls_dom [of E cs "newLoader E ctx"] newLoader_dom [of E ctx]
      have k: "k \<in> {''context'', ''parameter'', ''-''}" by auto
      have "ord = pre @ k # post
               \<and> k \<in> {''context'', ''parameter'', ''-''}
               \<and> addFiles E (files ?l) pre (build_NewInstance E) = Inr bi
               \<and> files ?l k = Some f
               \<and> cue_AddSyntax E bi f = Inl e'
               \<and> e = WithMessagef e' (''loader AddSyntax '' @ k)"
        using d k by (intro conjI)
      then have "\<exists>pre k post f bi e'. ord = pre @ k # post
               \<and> k \<in> {''context'', ''parameter'', ''-''}
               \<and> addFiles E (files ?l) pre (build_NewInstance E) = Inr bi
               \<and> files ?l k = Some f
               \<and> cue_AddSyntax E bi f = Inl e'
               \<and> e = WithMessagef e' (''loader AddSyntax '' @ k)"
        by (intro exI)
      with None show ?thesis by (intro disjI2 disjI1 conjI)
    next
      case (Inr bi)
      with None c have v: "validateAll E (cue_Build E [bi]) None = Inl e"
        by (simp add: loader_Complete_def)
      from validateAll_Inl_decomp [OF v] obtain ipre inst ipost e' where
        d: "cue_Build E [bi] = ipre @ inst # ipost" "\<forall>i \<in> set ipre. cue_Validate E i = None"
          "cue_Validate E inst = Some e'" "e = WithMessagef e' ''loader cue-instance validate''"
        by (elim exE conjE)
      have "addFiles E (files ?l) ord (build_NewInstance E) = Inr bi
               \<and> cue_Build E [bi] = ipre @ inst # ipost
               \<and> (\<forall>i \<in> set ipre. cue_Validate E i = None)
               \<and> cue_Validate E inst = Some e'
               \<and> e = WithMessagef e' ''loader cue-instance validate''"
        using Inr d by (intro conjI)
      then have "\<exists>bi ipre inst ipost e'.
               addFiles E (files ?l) ord (build_NewInstance E) = Inr bi
               \<and> cue_Build E [bi] = ipre @ inst # ipost
               \<and> (\<forall>i \<in> set ipre. cue_Validate E i = None)
               \<and> cue_Validate E inst = Some e'
               \<and> e = WithMessagef e' ''loader cue-instance validate''"
        by (intro exI)
      with None show ?thesis by (intro disjI2 conjI)
    qed
  qed
qed

lemma stage_shapes_differ:
  "Errorf m \<noteq> WithMessagef e1 m'"
  "WithMessagef e1 (''loader AddSyntax '' @ k) \<noteq> WithMessagef e2 ''loader cue-instance validate''"
  by simp_all

text \<open>
  C7. When \<^verbatim>\<open>Complete\<close> fails, the error tells the stage that failed, and for two of the
  three stages the fragment. A fragment that does not parse, in \<^verbatim>\<open>newLoader\<close> or in the
  first call that meets one, gives the error \<^verbatim>\<open>loader parse <name> error\<close> with the name
  of that fragment, whatever calls follow. When \<^verbatim>\<open>AddSyntax\<close> fails on the fragment under
  the key \<open>k\<close>, those before it in the iteration order having been added, the error is
  the engine's, wrapped with \<^verbatim>\<open>loader AddSyntax k\<close>. When an instance fails the
  validation, those before it having passed, the error is the engine's, wrapped with the
  fixed message \<^verbatim>\<open>loader cue-instance validate\<close>: its text is that message, a colon and
  the engine's text, and the loader puts no fragment's name in it. A failure of
  \<^verbatim>\<open>Complete\<close> on a loader made by \<^verbatim>\<open>newLoader\<close> and any calls is one of these, and the
  three shapes differ.
\<close>

theorem error_classification:
  "(snd (cue_ParseFile E ''context'' (marshal E ''context'' ctx)) \<noteq> None \<longrightarrow>
     loader_Complete E ord (apply_calls E cs (newLoader E ctx))
       = Inl (Errorf ''loader parse context error''))
   \<and> (err l = None \<and> \<not> call_parses E c \<longrightarrow>
     loader_Complete E ord (apply_calls E cs (apply_call E c l))
       = Inl (Errorf (''loader parse '' @ call_fragment c @ '' error''))
     \<and> names_fragment (message txt (Errorf (''loader parse '' @ call_fragment c @ '' error'')))
          (call_fragment c))
   \<and> (err l = None \<and> ord = pre @ k # post
     \<and> addFiles E (files l) pre (build_NewInstance E) = Inr bi
     \<and> files l k = Some f \<and> cue_AddSyntax E bi f = Inl e' \<longrightarrow>
     loader_Complete E ord l = Inl (WithMessagef e' (''loader AddSyntax '' @ k)))
   \<and> (k \<in> {''context'', ''parameter'', ''-''} \<longrightarrow>
     names_fragment (message txt (WithMessagef e' (''loader AddSyntax '' @ k))) k)
   \<and> (err l = None \<and> addFiles E (files l) ord (build_NewInstance E) = Inr bi
     \<and> cue_Build E [bi] = ipre @ inst # ipost
     \<and> (\<forall>i \<in> set ipre. cue_Validate E i = None)
     \<and> cue_Validate E inst = Some e' \<longrightarrow>
     loader_Complete E ord l = Inl (WithMessagef e' ''loader cue-instance validate'')
     \<and> message txt (WithMessagef e' ''loader cue-instance validate'')
         = ''loader cue-instance validate: '' @ txt e')
   \<and> (loader_Complete E ord (apply_calls E cs (newLoader E ctx)) = Inl e \<longrightarrow>
     (snd (cue_ParseFile E ''context'' (marshal E ''context'' ctx)) \<noteq> None
        \<and> e = Errorf ''loader parse context error'')
     \<or> (\<exists>cs1 c cs2. cs = cs1 @ c # cs2
           \<and> err (apply_calls E cs1 (newLoader E ctx)) = None
           \<and> \<not> call_parses E c
           \<and> e = Errorf (''loader parse '' @ call_fragment c @ '' error''))
     \<or> (err (apply_calls E cs (newLoader E ctx)) = None
         \<and> (\<exists>pre k post f bi e'. ord = pre @ k # post
               \<and> k \<in> {''context'', ''parameter'', ''-''}
               \<and> addFiles E (files (apply_calls E cs (newLoader E ctx))) pre
                    (build_NewInstance E) = Inr bi
               \<and> files (apply_calls E cs (newLoader E ctx)) k = Some f
               \<and> cue_AddSyntax E bi f = Inl e'
               \<and> e = WithMessagef e' (''loader AddSyntax '' @ k)))
     \<or> (err (apply_calls E cs (newLoader E ctx)) = None
         \<and> (\<exists>bi ipre inst ipost e'.
               addFiles E (files (apply_calls E cs (newLoader E ctx))) ord
                    (build_NewInstance E) = Inr bi
               \<and> cue_Build E [bi] = ipre @ inst # ipost
               \<and> (\<forall>i \<in> set ipre. cue_Validate E i = None)
               \<and> cue_Validate E inst = Some e'
               \<and> e = WithMessagef e' ''loader cue-instance validate'')))
   \<and> Errorf m \<noteq> WithMessagef e1 m'
   \<and> WithMessagef e1 (''loader AddSyntax '' @ k)
       \<noteq> WithMessagef e2 ''loader cue-instance validate''"
  by (rule conjI, rule parse_stage_newLoader,
      rule conjI, rule parse_stage_call,
      rule conjI, rule assembly_stage,
      rule conjI, rule names_key,
      rule conjI, rule validation_stage,
      rule conjI, rule stages_exhaustive,
      rule conjI, rule stage_shapes_differ(1), rule stage_shapes_differ(2))

theorem error_classification_witness:
  "err (newLoader sample_engine (Iface (Some ''{}''))) = None
   \<and> \<not> call_parses sample_engine (CallParams (Iface None))
   \<and> loader_Complete sample_engine [''context'', ''parameter'', ''-'']
        (apply_calls sample_engine [CallTemplate ''replicas: _'']
           (apply_call sample_engine (CallParams (Iface None))
              (newLoader sample_engine (Iface (Some ''{}'')))))
       = Inl (Errorf ''loader parse parameter error'')
   \<and> loader_Complete sample_engine [''context'', ''-'']
        (WithTemplate sample_engine ''replicas: _'' (newLoader sample_engine (Iface (Some ''{}''))))
       = Inl (WithMessagef ''incomplete value'' ''loader cue-instance validate'')"
proof -
  let ?n = "newLoader sample_engine (Iface (Some ''{}''))"
  let ?l = "WithTemplate sample_engine ''replicas: _'' ?n"
  have h0: "err ?n = None"
    by (simp add: loader_defs sample_defs)
  have np: "\<not> call_parses sample_engine (CallParams (Iface None))"
    by (simp add: loader_defs sample_defs)
  have h: "err ?l = None"
    by (simp add: loader_defs sample_defs)
  have a: "addFiles sample_engine (files ?l) [''context'', ''-''] (build_NewInstance sample_engine)
      = Inr [''context: {}'', ''replicas: _'']"
    by (simp add: loader_defs sample_defs)
  have b: "cue_Build sample_engine [[''context: {}'', ''replicas: _'']]
      = [] @ [''context: {}'', ''replicas: _''] # []"
    by (simp add: sample_defs)
  have p: "\<forall>i \<in> set []. cue_Validate sample_engine i = None"
    by simp
  have v: "cue_Validate sample_engine [''context: {}'', ''replicas: _''] = Some ''incomplete value''"
    by (simp add: sample_defs)
  note t1 = error_classification [where E = sample_engine
      and cs = "[CallTemplate ''replicas: _'']" and ord = "[''context'', ''parameter'', ''-'']"]
  note t2 = error_classification [where E = sample_engine and ord = "[''context'', ''-'']"]
  from t1 [THEN conjunct2, THEN conjunct1, rule_format, OF conjI [OF h0 np], THEN conjunct1]
  have r1: "loader_Complete sample_engine [''context'', ''parameter'', ''-'']
        (apply_calls sample_engine [CallTemplate ''replicas: _'']
           (apply_call sample_engine (CallParams (Iface None)) ?n))
       = Inl (Errorf ''loader parse parameter error'')"
    by simp
  from t2 [THEN conjunct2, THEN conjunct2, THEN conjunct2, THEN conjunct2, THEN conjunct1,
      rule_format, OF conjI [OF h conjI [OF a conjI [OF b conjI [OF p v]]]], THEN conjunct1]
  have r2: "loader_Complete sample_engine [''context'', ''-''] ?l
       = Inl (WithMessagef ''incomplete value'' ''loader cue-instance validate'')" .
  from h0 np r1 r2 show ?thesis by (intro conjI)
qed

text \<open>
  As the specification words it, the property fails on a validation error: the text of
  the error is the fixed message and the engine's text, and names none of the fragments.
\<close>

theorem error_classification_counterexample:
  "loader_Complete sample_engine [''context'', ''-'']
      (WithTemplate sample_engine ''replicas: _'' (newLoader sample_engine (Iface (Some ''{}''))))
     = Inl (WithMessagef ''incomplete value'' ''loader cue-instance validate'')
   \<and> message (\<lambda>e. e) (WithMessagef ''incomplete value'' ''loader cue-instance validate'')
     = ''loader cue-instance validate: incomplete value''
   \<and> \<not> names_fragment ''loader cue-instance validate: incomplete value'' ''context''
   \<and> \<not> names_fragment ''loader cue-instance validate: incomplete value'' ''parameter''
   \<and> \<not> names_fragment ''loader cue-instance validate: incomplete value'' ''template''
   \<and> \<not> names_fragment ''loader cue-instance validate: incomplete value'' ''-''"
proof -
  have c: "loader_Complete sample_engine [''context'', ''-'']
      (WithTemplate sample_engine ''replicas: _'' (newLoader sample_engine (Iface (Some ''{}''))))
     = Inl (WithMessagef ''incomplete value'' ''loader cue-instance validate'')"
    by (simp add: loader_defs sample_defs)
  have m: "message (\<lambda>e. e) (WithMessagef ''incomplete value'' ''loader cue-instance validate'')
     = ''loader cue-instance validate: incomplete value''"
    by simp
  have n: "\<not> names_fragment ''loader cue-instance validate: incomplete value'' ''context''"
    "\<not> names_fragment ''loader cue-instance validate: incomplete value'' ''parameter''"
    "\<not> names_fragment ''loader cue-instance validate: incomplete value'' ''template''"
    "\<not> names_fragment ''loader cue-instance validate: incomplete value'' ''-''"
    by (simp_all add: names_fragment_def)
  show ?thesis
    by (intro conjI c m n)
qed

section \<open>The two strategies\<close>

lemma evalTraitsStateless_name:
  "evalTraitsStateless E S compCtx trs acc = Inr acc' \<Longrightarrow> ComponentName acc' = ComponentName acc"
  by (induction trs arbitrary: acc) (auto split: sum.splits)

lemma Component_eq_iff:
  "(x :: 'o Component) = y \<longleftrightarrow>
     TypeMeta x = TypeMeta y \<and> Name x = Name y \<and> Namespace x = Namespace y
     \<and> Labels x = Labels y \<and> Spec_Workload x = Spec_Workload y"
  by (cases x, cases y) auto

lemma ACC_eq_iff:
  "(x :: 'o ApplicationConfigurationComponent) = y \<longleftrightarrow>
     ComponentName x = ComponentName y \<and> Traits x = Traits y"
  by (cases x, cases y) auto

lemma stamp_source_order:
  "(c :: 'o Component)\<lparr>Namespace := ns, Name := n, Labels := L, TypeMeta := T\<rparr>
     = c\<lparr>Name := n, Namespace := ns, Labels := L, TypeMeta := T\<rparr>"
  by (simp add: Component_eq_iff)

lemma servicesStateless_Cons:
  "servicesStateless E S b ns (wl # wls) appconfig componets =
     (case renderStateless E S wl of
        Inl e \<Rightarrow> (None, None, Some e)
      | Inr r \<Rightarrow>
          servicesStateless E S b ns wls
            (appconfig\<lparr>Spec_Components := Spec_Components appconfig
                @ [(snd r)\<lparr>ComponentName := wl_Name wl\<rparr>]\<rparr>)
            (componets @ [stamp ns (app_Name (builder_app b)) (wl_Name wl) (fst r)]))"
proof (cases "wl_Eval S wl (newLoader E (MapStringString [''name'' \<mapsto> wl_Name wl]))")
  case (Inl e)
  then show ?thesis by (simp add: renderStateless_def)
next
  case (Inr component)
  show ?thesis
  proof (cases "evalTraitsStateless E S (MapStringString [''name'' \<mapsto> wl_Name wl]) (wl_Traits wl)
                     \<lparr>ComponentName = wl_Name wl, Traits = []\<rparr>")
    case (Inl e)
    with Inr show ?thesis by (simp add: renderStateless_def Let_def)
  next
    case r: (Inr acc)
    from evalTraitsStateless_name [OF r] have "acc\<lparr>ComponentName := wl_Name wl\<rparr> = acc"
      by simp
    with Inr r show ?thesis
      by (cases "Labels component")
         (simp_all add: renderStateless_def Let_def stamp_def stamp_source_order)
  qed
qed

lemma servicesStateless_assemble:
  "servicesStateless E S b ns wls appconfig componets =
     assemble ns (app_Name (builder_app b)) appconfig componets
       (map wl_Name wls) (map (renderStateless E S) wls)"
proof (induction wls arbitrary: appconfig componets)
  case Nil
  then show ?case by (simp add: assemble_def)
next
  case (Cons wl wls)
  show ?case
    by (simp only: servicesStateless_Cons Cons.IH)
       (cases "renderStateless E S wl"; simp add: assemble_def split: sum.splits)
qed

lemma built_Some:
  assumes "assemble ns an (new_appconfig b ns) [] (map wl_Name wls) (map f wls)
             = (Some appconfig, Some componets, None)"
  shows "\<exists>rs. map f wls = map Inr rs
            \<and> length rs = length wls
            \<and> componets = map2 (\<lambda>n r. stamp ns an n (fst r)) (map wl_Name wls) rs
            \<and> appconfig = (new_appconfig b ns)\<lparr>Spec_Components :=
                  map2 (\<lambda>n r. (snd r)\<lparr>ComponentName := n\<rparr>) (map wl_Name wls) rs\<rparr>"
proof -
  from assemble_Some [OF assms] obtain rs where
    rs: "first_error (map f wls) = Inr rs"
    and c: "componets = [] @ map2 (\<lambda>n r. stamp ns an n (fst r)) (map wl_Name wls) rs"
    and a: "appconfig = (new_appconfig b ns)\<lparr>Spec_Components :=
               Spec_Components (new_appconfig b ns)
                     @ map2 (\<lambda>n r. (snd r)\<lparr>ComponentName := n\<rparr>) (map wl_Name wls) rs\<rparr>"
    by blast
  from first_error_length [OF rs] have "length rs = length wls"
    by simp
  with first_error_Inr [OF rs] c a show ?thesis
    by (intro exI [of _ rs]) simp
qed

text \<open>
  Both strategies stamp alike. When \<^verbatim>\<open>builder.Complete\<close> and \<^verbatim>\<open>CompleteWithContext\<close>
  both succeed on a builder and a namespace, their configurations have the same kind,
  name, namespace and labels and binding records with the same names in the same order,
  and their components have the same names, namespaces, kinds and application label in
  the same order. What is left, the trait lists of the records and the workload bodies and
  labels of the components, comes from \<^verbatim>\<open>Eval\<close> on the one side and from
  \<^verbatim>\<open>EvalContext\<close> and the context's output on the other.
\<close>

lemma strategies_stamp_alike:
  assumes "builder_Complete E S b ns = (Some ac1, Some cs1, None)"
    and "CompleteWithContext P b ns = (Some ac2, Some cs2, None)"
  shows "TypeMeta ac1 = TypeMeta ac2 \<and> Name ac1 = Name ac2
       \<and> Namespace ac1 = Namespace ac2 \<and> Labels ac1 = Labels ac2
       \<and> map ComponentName (Spec_Components ac1) = map ComponentName (Spec_Components ac2)
       \<and> map Name cs1 = map Name cs2
       \<and> map Namespace cs1 = map Namespace cs2
       \<and> map TypeMeta cs1 = map TypeMeta cs2
       \<and> map (\<lambda>c. map_option (\<lambda>m. m OamApplicationLabel) (Labels c)) cs1
           = map (\<lambda>c. map_option (\<lambda>m. m OamApplicationLabel) (Labels c)) cs2
       \<and> ((ac1 = ac2 \<and> cs1 = cs2) \<longleftrightarrow>
            (map Traits (Spec_Components ac1) = map Traits (Spec_Components ac2)
             \<and> map Spec_Workload cs1 = map Spec_Workload cs2
             \<and> map Labels cs1 = map Labels cs2))"
proof -
  let ?wls = "app_Services (builder_app b)"
  let ?an = "app_Name (builder_app b)"
  from built_Some [OF assms(1) [unfolded builder_Complete_def servicesStateless_assemble]]
  obtain rs1 where l1: "length rs1 = length ?wls"
    and c1: "cs1 = map2 (\<lambda>n r. stamp ns ?an n (fst r)) (map wl_Name ?wls) rs1"
    and a1: "ac1 = (new_appconfig b ns)\<lparr>Spec_Components :=
                  map2 (\<lambda>n r. (snd r)\<lparr>ComponentName := n\<rparr>) (map wl_Name ?wls) rs1\<rparr>"
    by blast
  from built_Some [OF assms(2) [unfolded CompleteWithContext_def servicesWithContext_assemble]]
  obtain rs2 where l2: "length rs2 = length ?wls"
    and c2: "cs2 = map2 (\<lambda>n r. stamp ns ?an n (fst r)) (map wl_Name ?wls) rs2"
    and a2: "ac2 = (new_appconfig b ns)\<lparr>Spec_Components :=
                  map2 (\<lambda>n r. (snd r)\<lparr>ComponentName := n\<rparr>) (map wl_Name ?wls) rs2\<rparr>"
    by blast
  have m: "TypeMeta ac1 = TypeMeta ac2 \<and> Name ac1 = Name ac2
       \<and> Namespace ac1 = Namespace ac2 \<and> Labels ac1 = Labels ac2"
    by (simp add: a1 a2)
  have n: "map ComponentName (Spec_Components ac1) = map ComponentName (Spec_Components ac2)"
    using l1 l2 by (simp add: a1 a2 list_eq_iff_nth_eq)
  have s: "map Name cs1 = map Name cs2" "map Namespace cs1 = map Namespace cs2"
    "map TypeMeta cs1 = map TypeMeta cs2"
    "map (\<lambda>c. map_option (\<lambda>m. m OamApplicationLabel) (Labels c)) cs1
           = map (\<lambda>c. map_option (\<lambda>m. m OamApplicationLabel) (Labels c)) cs2"
    using l1 l2 by (simp_all add: c1 c2 list_eq_iff_nth_eq)
  have lc: "length cs1 = length cs2" using l1 l2 by (simp add: c1 c2)
  have la: "length (Spec_Components ac1) = length (Spec_Components ac2)"
    using l1 l2 by (simp add: a1 a2)
  have e1: "cs1 = cs2 \<longleftrightarrow> map Spec_Workload cs1 = map Spec_Workload cs2 \<and> map Labels cs1 = map Labels cs2"
    using s(1-3) lc by (auto simp: list_eq_iff_nth_eq Component_eq_iff)
  have "Spec_Components ac1 = Spec_Components ac2
      \<longleftrightarrow> map Traits (Spec_Components ac1) = map Traits (Spec_Components ac2)"
    using n la by (auto simp: list_eq_iff_nth_eq ACC_eq_iff)
  moreover have "ac1 = ac2 \<longleftrightarrow> Spec_Components ac1 = Spec_Components ac2"
  proof
    assume "ac1 = ac2"
    then show "Spec_Components ac1 = Spec_Components ac2" by simp
  next
    assume h: "Spec_Components ac1 = Spec_Components ac2"
    have "ac1 = (new_appconfig b ns)\<lparr>Spec_Components := Spec_Components ac1\<rparr>"
      by (simp add: a1)
    moreover have "ac2 = (new_appconfig b ns)\<lparr>Spec_Components := Spec_Components ac2\<rparr>"
      by (simp add: a2)
    ultimately show "ac1 = ac2" using h by simp
  qed
  ultimately have e2: "ac1 = ac2
      \<longleftrightarrow> map Traits (Spec_Components ac1) = map Traits (Spec_Components ac2)"
    by simp
  from m n s e1 e2 show ?thesis by blast
qed

section \<open>The iteration order of the loader's map\<close>

text \<open>
  \<^verbatim>\<open>loader.Complete\<close> adds the fragments in the iteration order of a Go map. With an
  engine that keeps the files in the order they were added, two iteration orders of the
  same map give two instances. \<^verbatim>\<open>Build\<close> and \<^verbatim>\<open>CompleteWithContext\<close> range over slices
  and do not call the loader.
\<close>

lemma loader_Complete_follows_order:
  "iteration_order
      (WithTemplate sample_engine ''replicas: 1'' (newLoader sample_engine (Iface (Some ''{}''))))
      [''context'', ''-'']
   \<and> iteration_order
      (WithTemplate sample_engine ''replicas: 1'' (newLoader sample_engine (Iface (Some ''{}''))))
      [''-'', ''context'']
   \<and> loader_Complete sample_engine [''context'', ''-'']
        (WithTemplate sample_engine ''replicas: 1'' (newLoader sample_engine (Iface (Some ''{}''))))
      = Inr (Some [''context: {}'', ''replicas: 1''])
   \<and> loader_Complete sample_engine [''-'', ''context'']
        (WithTemplate sample_engine ''replicas: 1'' (newLoader sample_engine (Iface (Some ''{}''))))
      = Inr (Some [''replicas: 1'', ''context: {}''])"
proof -
  let ?l = "WithTemplate sample_engine ''replicas: 1'' (newLoader sample_engine (Iface (Some ''{}'')))"
  have d: "dom (files ?l) = {''context'', ''-''}"
    by (auto simp: loader_defs sample_defs)
  have o: "iteration_order ?l [''context'', ''-'']" "iteration_order ?l [''-'', ''context'']"
    unfolding iteration_order_def d by auto
  have c: "loader_Complete sample_engine [''context'', ''-''] ?l
      = Inr (Some [''context: {}'', ''replicas: 1''])"
    "loader_Complete sample_engine [''-'', ''context''] ?l
      = Inr (Some [''replicas: 1'', ''context: {}''])"
    by (simp_all add: loader_defs sample_defs)
  from o c show ?thesis by (intro conjI)
qed

end
